theory Spec2Isabelle
  imports Main "HOL-Library.AList"
begin

section \<open>Conventions of the embedding\<close>

text \<open>
  The development embeds the component and event substrate of \<^verbatim>\<open>bundle.js\<close>:
  the channel bus \<^verbatim>\<open>lsEmitter\<close>, the timer queue it is driven by, and (further down) the
  \<^verbatim>\<open>BaseElement\<close> component tree with its two process-wide registries.

  \<^item> A thrown exception (or the rejection of the promise of an \<^verbatim>\<open>async\<close> function) is
    the \<open>Inl\<close> branch of a sum.
  \<^item> \<^verbatim>\<open>setTimeout\<close> is an explicit queue of tasks with their due times on a logical
    clock. One task runs to completion before the next is taken.
  \<^item> Functions handed in by callers (channel listeners, result callbacks, hooks, DOM
    listeners) are opaque tokens. A channel listener is described by what it passes to
    \<^verbatim>\<open>event.send\<close>; it runs synchronously and returns normally, and so does a result
    callback of a bus on its own.
\<close>

datatype error =
    INVALID_CHANNEL_NAME
  | EVENT_DESTROYED
  | NON_WRITABLE_CHANNEL
  | CHANNEL_NOT_FOUND
  | NON_REMOVABLE_CHANNEL
  | UniqueType
  | LeisError
  | TypeError
  | NotFoundError
  | HierarchyRequestError
  | RangeError
  | Unrepresented

text \<open>
  The last alternative is not an exception of the program. It is the outcome given to a
  call that goes on to read or write an object of the JavaScript runtime itself (a
  built-in reached through \<^verbatim>\<open>Object.prototype\<close>, or a property of a function that has
  become a prototype): what the program does from there depends on the runtime and is
  not followed. No statement below concludes it.
\<close>

section \<open>Objects used as dictionaries\<close>

text \<open>
  The bundle keeps its tables (\<^verbatim>\<open>channels\<close>, \<^verbatim>\<open>inWaitChannel\<close>, \<^verbatim>\<open>eventMap\<close>,
  \<^verbatim>\<open>contentMap\<close>, \<^verbatim>\<open>leisElementMap\<close>, \<^verbatim>\<open>eventListeners\<close>) in plain objects created
  by \<^verbatim>\<open>{}\<close>. Such an object is the association list of its own properties in the order
  of their creation, with one exception: an entry under \<^verbatim>\<open>__proto__\<close> is not an own
  property. An assignment \<^verbatim>\<open>obj["__proto__"] = v\<close> of an object \<open>v\<close> replaces the
  prototype of \<^verbatim>\<open>obj\<close> and creates no own property, and the entry under \<^verbatim>\<open>__proto__\<close>
  records that prototype; without such an entry the prototype is \<^verbatim>\<open>Object.prototype\<close>.
  So an assignment \<^verbatim>\<open>obj[k] = v\<close> is \<open>AList.update k v\<close> for every \<open>k\<close> (an existing key
  keeps its place, a new key goes last), while the own properties are read by \<open>own\<close>.
\<close>

type_synonym 'v dict = "(string \<times> 'v) list"

definition own :: "string \<Rightarrow> 'v dict \<Rightarrow> 'v option" where
  "own k obj = (if k = ''__proto__'' then None else map_of obj k)"

text \<open>\<^verbatim>\<open>delete obj[k]\<close>: an own property goes; \<^verbatim>\<open>__proto__\<close> is not one.\<close>

definition discard :: "string \<Rightarrow> 'v dict \<Rightarrow> 'v dict" where
  "discard k obj = (if k = ''__proto__'' then obj else AList.delete k obj)"

text \<open>The names every object inherits from \<^verbatim>\<open>Object.prototype\<close>. A read \<^verbatim>\<open>obj[k]\<close> of
  such a name that is not an own property yields a built-in function (for
  \<^verbatim>\<open>__proto__\<close>, the prototype), which is truthy.\<close>

definition inherited :: "string \<Rightarrow> bool" where
  "inherited k =
     (k \<in> set [''constructor'', ''hasOwnProperty'', ''isPrototypeOf'',
               ''propertyIsEnumerable'', ''toLocaleString'', ''toString'', ''valueOf'',
               ''__defineGetter__'', ''__defineSetter__'', ''__lookupGetter__'',
               ''__lookupSetter__'', ''__proto__''])"

text \<open>
  \<^verbatim>\<open>has(prop, obj)\<close> is
  \<^verbatim>\<open>obj.indexOf ? obj.indexOf(prop) > -1 : obj.hasOwnProperty(prop)\<close>. On a dictionary
  both \<^verbatim>\<open>obj.indexOf\<close> and \<^verbatim>\<open>obj.hasOwnProperty\<close> are property reads, so an own
  property of either name takes the place of the built-in: \<open>probe\<close> is the stored value
  that \<^verbatim>\<open>has\<close> then calls (every value stored in these tables is truthy). Calling a
  value that is not a function throws; a stored function is one of the closures of
  \<^verbatim>\<open>addEvent\<close>, which returns \<^verbatim>\<open>undefined\<close>, so that the test comes out false. Only
  without such an own property does \<^verbatim>\<open>has\<close> test whether \<open>prop\<close> is an own property.
  \<open>callable\<close> says which stored values are functions.
\<close>

definition probe :: "'v dict \<Rightarrow> 'v option" where
  "probe obj =
     (case own ''indexOf'' obj of
        Some f \<Rightarrow> Some f
      | None \<Rightarrow> own ''hasOwnProperty'' obj)"

definition has :: "('v \<Rightarrow> bool) \<Rightarrow> string \<Rightarrow> 'v dict \<Rightarrow> error + bool" where
  "has callable prop obj =
     (case probe obj of
        Some f \<Rightarrow> if callable f then Inr False else Inl TypeError
      | None \<Rightarrow> Inr (own prop obj \<noteq> None))"

text \<open>
  \<^verbatim>\<open>Object.keys(obj)\<close>: the own property names, those that are array indices (canonical
  decimal numerals below \<open>2^32 - 1\<close>) first in ascending order, then the others in the
  order of their creation.
\<close>

definition digit :: "char \<Rightarrow> nat" where
  "digit c = of_char c - 48"

definition numeral_value :: "string \<Rightarrow> nat" where
  "numeral_value k = foldl (\<lambda>n c. 10 * n + digit c) 0 k"

definition array_index :: "string \<Rightarrow> bool" where
  "array_index k =
     (k \<noteq> [] \<and> (\<forall>c\<in>set k. c \<in> set ''0123456789'')
      \<and> (k = ''0'' \<or> hd k \<noteq> CHR ''0'') \<and> numeral_value k < 4294967295)"

definition keys :: "'v dict \<Rightarrow> string list" where
  "keys obj =
     (let ks = filter (\<lambda>k. k \<noteq> ''__proto__'') (map fst obj)
      in sort_key numeral_value (filter array_index ks)
           @ filter (\<lambda>k. \<not> array_index k) ks)"

text \<open>
  A dictionary on which \<^verbatim>\<open>has\<close> is the own-property test; a name that becomes an
  own property when assigned and leaves the dictionary plain; and a name that, besides,
  is not inherited.
\<close>

definition plain :: "'v dict \<Rightarrow> bool" where
  "plain obj = (probe obj = None)"

definition storable :: "string \<Rightarrow> bool" where
  "storable k = (k \<noteq> ''__proto__'' \<and> k \<noteq> ''indexOf'' \<and> k \<noteq> ''hasOwnProperty'')"

definition ordinary :: "string \<Rightarrow> bool" where
  "ordinary k = (\<not> inherited k \<and> k \<noteq> ''indexOf'')"

section \<open>The channel bus\<close>

subsection \<open>State\<close>

record 'l channel =
  listener :: 'l
  removable :: bool
  writable :: bool

text \<open>
  \<^verbatim>\<open>exe\<close> is a closure over the arguments of the \<^verbatim>\<open>invoke\<close> call that made it: the
  channel name, the optional result callback and the argument list. A queued thunk
  \<^verbatim>\<open>() => obj.after(1, exe)\<close> is represented by the \<^verbatim>\<open>exe\<close> it will schedule.
\<close>

type_synonym ('c, 'a) exe = "string \<times> 'c option \<times> 'a list"

text \<open>
  The object returned by \<^verbatim>\<open>lsEmitter\<close> is the method table \<^verbatim>\<open>EVENTS\<close>. \<^verbatim>\<open>clear\<close>
  overwrites every slot of that table with \<^verbatim>\<open>checkState\<close>, so a slot holds either
  the function it was created with or \<^verbatim>\<open>checkState\<close>.
\<close>

datatype impl = Original | CheckState

record ('l, 'c, 'a, 'd) emitter =
  channels :: "'l channel dict"
  inWaitChannel :: "('c, 'a) exe list dict"
  data :: "'d option"
  isDestroyed :: bool
  EVENTS :: "impl dict"

definition method_names :: "string list" where
  "method_names =
     [''invoke'', ''handle'', ''removeEvent'', ''removeChannel'', ''hasEvent'',
      ''eventsList'', ''clear'']"

definition newEmitter :: "('l, 'c, 'a, 'd) emitter" where
  "newEmitter =
     \<lparr> channels = [], inWaitChannel = [], data = None, isDestroyed = False,
       EVENTS = map (\<lambda>m. (m, Original)) method_names \<rparr>"

subsection \<open>The closures of \<^verbatim>\<open>lsEmitter\<close>\<close>

text \<open>
  Strings are lists of 8-bit characters; the white space that \<^verbatim>\<open>trim\<close> strips is
  the part of JavaScript's white space and line terminators below 256.
\<close>

definition isWhiteSpace :: "char \<Rightarrow> bool" where
  "isWhiteSpace c = ((of_char c :: nat) \<in> set [9, 10, 11, 12, 13, 32, 160])"

definition trim :: "string \<Rightarrow> string" where
  "trim s = rev (dropWhile isWhiteSpace (rev (dropWhile isWhiteSpace s)))"

definition validateChannelName :: "string \<Rightarrow> error + unit" where
  "validateChannelName channel =
     (if channel = [] \<or> trim channel = [] then Inl INVALID_CHANNEL_NAME else Inr ())"

definition checkState :: "('l, 'c, 'a, 'd) emitter \<Rightarrow> error + unit" where
  "checkState b = (if isDestroyed b then Inl EVENT_DESTROYED else Inr ())"

text \<open>
  \<^verbatim>\<open>clear\<close> sets the variables \<^verbatim>\<open>channels\<close> and \<^verbatim>\<open>inWaitChannel\<close> to \<^verbatim>\<open>null\<close> as it
  raises \<^verbatim>\<open>isDestroyed\<close>, and nothing else writes these three, so on a bus whose flag is
  up a read of a property of either table throws a \<^verbatim>\<open>TypeError\<close>. The tables hold
  records and arrays, which are not functions.
\<close>

definition no_function :: "'v \<Rightarrow> bool" where
  "no_function v = False"

text \<open>
  \<^verbatim>\<open>invoke\<close> returns the bus and the list of \<^verbatim>\<open>exe\<close> closures it passed to
  \<^verbatim>\<open>obj.after(1, _)\<close>. It does not call \<^verbatim>\<open>checkState\<close>. The pending calls are found
  by the read \<^verbatim>\<open>inWaitChannel[channel]\<close>, which for a name that is inherited and not an
  own property yields a built-in without a \<^verbatim>\<open>push\<close>.
\<close>

definition invoke ::
  "string \<Rightarrow> 'c option \<Rightarrow> 'a list \<Rightarrow> ('l, 'c, 'a, 'd) emitter
     \<Rightarrow> error + (('l, 'c, 'a, 'd) emitter \<times> ('c, 'a) exe list)" where
  "invoke channel cb args b =
     (case validateChannelName channel of
        Inl e \<Rightarrow> Inl e
      | Inr _ \<Rightarrow>
     (case (if isDestroyed b then Inr False else has no_function channel (channels b)) of
        Inl e \<Rightarrow> Inl e
      | Inr defined \<Rightarrow>
          if defined then Inr (b, [(channel, cb, args)])
          else if isDestroyed b then Inl TypeError
          else
            (case own channel (inWaitChannel b) of
               Some q \<Rightarrow>
                 Inr (b\<lparr>inWaitChannel :=
                          AList.update channel (q @ [(channel, cb, args)])
                            (inWaitChannel b)\<rparr>, [])
             | None \<Rightarrow>
                 if inherited channel then Inl TypeError
                 else
                   Inr (b\<lparr>inWaitChannel :=
                            AList.update channel [(channel, cb, args)]
                              (inWaitChannel b)\<rparr>, []))))"

text \<open>
  \<^verbatim>\<open>handle(channel, listener, removable = true, writable = true)\<close>: an omitted flag is
  \<open>None\<close> and takes its default. The thunks queued for the channel are run in array
  order, each scheduling its \<^verbatim>\<open>exe\<close>; then the queue entry is deleted and the channel
  is (re)defined. Both tests go through \<^verbatim>\<open>has\<close> and come before any write.
\<close>

definition default_true :: "bool option \<Rightarrow> bool" where
  "default_true flag = (case flag of None \<Rightarrow> True | Some v \<Rightarrow> v)"

definition handle ::
  "string \<Rightarrow> 'l \<Rightarrow> bool option \<Rightarrow> bool option \<Rightarrow> ('l, 'c, 'a, 'd) emitter
     \<Rightarrow> error + (('l, 'c, 'a, 'd) emitter \<times> ('c, 'a) exe list)" where
  "handle channel l rem wr b =
     (case checkState b of
        Inl e \<Rightarrow> Inl e
      | Inr _ \<Rightarrow>
     (case validateChannelName channel of
        Inl e \<Rightarrow> Inl e
      | Inr _ \<Rightarrow>
     (case has no_function channel (channels b) of
        Inl e \<Rightarrow> Inl e
      | Inr defined \<Rightarrow>
          if defined \<and> (case own channel (channels b) of
                          None \<Rightarrow> False | Some c \<Rightarrow> \<not> writable c)
          then Inl NON_WRITABLE_CHANNEL
          else
            (case has no_function channel (inWaitChannel b) of
               Inl e \<Rightarrow> Inl e
             | Inr waiting \<Rightarrow>
                 let scheduled = (if waiting
                                  then (case own channel (inWaitChannel b) of
                                          None \<Rightarrow> [] | Some q \<Rightarrow> q)
                                  else [])
                 in Inr (b\<lparr>inWaitChannel :=
                             (if waiting then discard channel (inWaitChannel b)
                              else inWaitChannel b),
                           channels :=
                             AList.update channel
                               \<lparr>listener = l, removable = default_true rem,
                                writable = default_true wr\<rparr> (channels b)\<rparr>,
                         scheduled)))))"

text \<open>
  \<^verbatim>\<open>removeChannel\<close>. It deletes the channel before it looks at the pending calls, so
  when that second \<^verbatim>\<open>has\<close> throws the channel is already gone: a failure comes with the
  bus as the call left it. The last statement reads \<^verbatim>\<open>data.channel\<close>; \<open>channel_of\<close>
  says what that property of a sent value is.
\<close>

definition removeChannel ::
  "('d \<Rightarrow> string option) \<Rightarrow> string \<Rightarrow> ('l, 'c, 'a, 'd) emitter
     \<Rightarrow> (error \<times> ('l, 'c, 'a, 'd) emitter) + ('l, 'c, 'a, 'd) emitter" where
  "removeChannel channel_of channel b =
     (case checkState b of
        Inl e \<Rightarrow> Inl (e, b)
      | Inr _ \<Rightarrow>
     (case validateChannelName channel of
        Inl e \<Rightarrow> Inl (e, b)
      | Inr _ \<Rightarrow>
     (case has no_function channel (channels b) of
        Inl e \<Rightarrow> Inl (e, b)
      | Inr defined \<Rightarrow>
          if \<not> defined then Inl (CHANNEL_NOT_FOUND, b)
          else
            (case own channel (channels b) of
               None \<Rightarrow> Inl (TypeError, b)
             | Some c \<Rightarrow>
                 if \<not> removable c then Inl (NON_REMOVABLE_CHANNEL, b)
                 else
                   let b1 = b\<lparr>channels := discard channel (channels b)\<rparr>
                   in (case has no_function channel (inWaitChannel b1) of
                         Inl e \<Rightarrow> Inl (e, b1)
                       | Inr waiting \<Rightarrow>
                           Inr (b1\<lparr>inWaitChannel :=
                                      (if waiting then discard channel (inWaitChannel b1)
                                       else inWaitChannel b1),
                                    data := (case data b1 of
                                               None \<Rightarrow> None
                                             | Some d \<Rightarrow>
                                                 if channel_of d = Some channel then None
                                                 else Some d)\<rparr>))))))"

text \<open>
  \<^verbatim>\<open>clear\<close> empties both dictionaries, rebinds every method of the instance to
  \<^verbatim>\<open>checkState\<close> and raises the flag; the two tables, \<^verbatim>\<open>null\<close> from then on, are left
  empty here.
\<close>

definition clear :: "('l, 'c, 'a, 'd) emitter \<Rightarrow> error + (bool \<times> ('l, 'c, 'a, 'd) emitter)" where
  "clear b =
     (case checkState b of
        Inl e \<Rightarrow> Inl e
      | Inr _ \<Rightarrow>
          Inr (True,
               b\<lparr>channels := [], inWaitChannel := [],
                 EVENTS := map (\<lambda>(meth, _). (meth, CheckState)) (EVENTS b),
                 data := None, isDestroyed := True\<rparr>))"

text \<open>The two queries, \<^verbatim>\<open>() => Object.keys(channels)\<close> and
  \<^verbatim>\<open>(channel) => obj.has(channel, channels)\<close>.\<close>

definition eventsList :: "('l, 'c, 'a, 'd) emitter \<Rightarrow> error + string list" where
  "eventsList b = (if isDestroyed b then Inl TypeError else Inr (keys (channels b)))"

definition hasEvent :: "string \<Rightarrow> ('l, 'c, 'a, 'd) emitter \<Rightarrow> error + bool" where
  "hasEvent channel b =
     (if isDestroyed b then Inl TypeError else has no_function channel (channels b))"

subsection \<open>Calling a method of the instance\<close>

text \<open>
  A call \<^verbatim>\<open>bus.m(...)\<close> runs whatever the slot \<^verbatim>\<open>m\<close> of the table holds. When it holds
  \<^verbatim>\<open>checkState\<close>, the arguments are ignored and the call either throws or returns
  \<^verbatim>\<open>undefined\<close>, for which the caller of \<open>call_method\<close> supplies a stand-in.
\<close>

definition call_method ::
  "string \<Rightarrow> (('l, 'c, 'a, 'd) emitter \<Rightarrow> error + 'r) \<Rightarrow> 'r \<Rightarrow> ('l, 'c, 'a, 'd) emitter
     \<Rightarrow> error + 'r" where
  "call_method name original undef b =
     (case map_of (EVENTS b) name of
        None \<Rightarrow> Inl TypeError
      | Some Original \<Rightarrow> original b
      | Some CheckState \<Rightarrow>
          (case checkState b of Inl e \<Rightarrow> Inl e | Inr _ \<Rightarrow> Inr undef))"

definition bus_invoke ::
  "string \<Rightarrow> 'c option \<Rightarrow> 'a list \<Rightarrow> ('l, 'c, 'a, 'd) emitter
     \<Rightarrow> error + (('l, 'c, 'a, 'd) emitter \<times> ('c, 'a) exe list)" where
  "bus_invoke channel cb args b = call_method ''invoke'' (invoke channel cb args) (b, []) b"

definition bus_handle ::
  "string \<Rightarrow> 'l \<Rightarrow> bool option \<Rightarrow> bool option \<Rightarrow> ('l, 'c, 'a, 'd) emitter
     \<Rightarrow> error + (('l, 'c, 'a, 'd) emitter \<times> ('c, 'a) exe list)" where
  "bus_handle channel l rem wr b = call_method ''handle'' (handle channel l rem wr) (b, []) b"

definition bus_removeEvent ::
  "('d \<Rightarrow> string option) \<Rightarrow> string \<Rightarrow> ('l, 'c, 'a, 'd) emitter
     \<Rightarrow> (error \<times> ('l, 'c, 'a, 'd) emitter) + ('l, 'c, 'a, 'd) emitter" where
  "bus_removeEvent channel_of channel b =
     (case call_method ''removeEvent'' (\<lambda>b. Inr (removeChannel channel_of channel b))
             (Inr b) b of
        Inl e \<Rightarrow> Inl (e, b)
      | Inr r \<Rightarrow> r)"

definition bus_hasEvent :: "string \<Rightarrow> ('l, 'c, 'a, 'd) emitter \<Rightarrow> error + bool" where
  "bus_hasEvent channel b = call_method ''hasEvent'' (hasEvent channel) False b"

definition bus_eventsList :: "('l, 'c, 'a, 'd) emitter \<Rightarrow> error + string list" where
  "bus_eventsList b = call_method ''eventsList'' eventsList [] b"

definition bus_clear ::
  "('l, 'c, 'a, 'd) emitter \<Rightarrow> error + (bool \<times> ('l, 'c, 'a, 'd) emitter)" where
  "bus_clear b = call_method ''clear'' clear (False, b) b"

text \<open>A bus is active when \<^verbatim>\<open>clear\<close> has not run on it: the flag is down and the
  table of methods is the one \<^verbatim>\<open>lsEmitter\<close> built.\<close>

definition active :: "('l, 'c, 'a, 'd) emitter \<Rightarrow> bool" where
  "active b = (\<not> isDestroyed b \<and> EVENTS b = map (\<lambda>m. (m, Original)) method_names)"


section \<open>Timers\<close>

text \<open>
  \<^verbatim>\<open>setTimeout(f, delay)\<close> appends \<open>f\<close> with its due time to the queue. The task
  taken next is the one with the least due time, the earliest inserted among equals.
\<close>

record 't timers =
  now :: nat
  queue :: "(nat \<times> 't) list"

definition setTimeout :: "'t \<Rightarrow> nat \<Rightarrow> 't timers \<Rightarrow> 't timers" where
  "setTimeout f delay tm = tm\<lparr>queue := queue tm @ [(now tm + delay, f)]\<rparr>"

fun pick :: "(nat \<times> 't) list \<Rightarrow> ((nat \<times> 't) \<times> (nat \<times> 't) list) option" where
  "pick [] = None"
| "pick (x # xs) =
     (case pick xs of
        None \<Rightarrow> Some (x, [])
      | Some (y, ys) \<Rightarrow> if fst x \<le> fst y then Some (x, xs) else Some (y, x # ys))"

text \<open>\<^verbatim>\<open>after(s, func)\<close> of the utility object handed to \<^verbatim>\<open>lsEmitter\<close>, applied by the
  bus with \<open>s = 1\<close> to each \<^verbatim>\<open>exe\<close> in turn.\<close>

definition after :: "nat \<Rightarrow> 't \<Rightarrow> 't timers \<Rightarrow> 't timers" where
  "after s func tm = setTimeout func s tm"

definition after_all :: "'t list \<Rightarrow> 't timers \<Rightarrow> 't timers" where
  "after_all fs tm = foldl (\<lambda>q f. after 1 f q) tm fs"

section \<open>A bus with its timers\<close>

text \<open>
  A bus on its own, as any caller outside the component tree uses it. The listener of a
  channel is a token \<open>'l\<close>; \<open>sends l args\<close> is \<open>None\<close> when the listener, called with
  \<open>args\<close>, never calls \<^verbatim>\<open>event.send\<close>, and \<open>Some v\<close> when the last value it sends is
  \<open>v\<close> (\<open>None\<close> for \<^verbatim>\<open>null\<close>). The calls made to listeners and result callbacks are
  logged in order, and so is an \<^verbatim>\<open>exe\<close> that throws (its promise is rejected and
  nobody awaits it).
\<close>

datatype ('l, 'c, 'a, 'd) call =
    ListenerCalled string 'l "'a list"
  | CallbackCalled 'c "'d option"
  | Rejected error

record ('l, 'c, 'a, 'd) bus_sys =
  bus :: "('l, 'c, 'a, 'd) emitter"
  timers :: "('c, 'a) exe timers"
  calls :: "('l, 'c, 'a, 'd) call list"

definition new_bus_sys :: "('l, 'c, 'a, 'd) bus_sys" where
  "new_bus_sys = \<lparr> bus = newEmitter, timers = \<lparr>now = 0, queue = []\<rparr>, calls = [] \<rparr>"

text \<open>
  What \<^verbatim>\<open>exe\<close> finds when it reads \<^verbatim>\<open>channels[channel]\<close>, a read through the
  prototype chain: a record with a \<^verbatim>\<open>listener\<close> (the channel, or under \<^verbatim>\<open>__proto__\<close>
  the record that an earlier \<^verbatim>\<open>handle("__proto__", _)\<close> made the prototype); or
  something truthy without a \<^verbatim>\<open>listener\<close>, on which the call of
  \<^verbatim>\<open>channels[channel].listener\<close> throws (a built-in, or the \<^verbatim>\<open>listener\<close>, or a true
  \<^verbatim>\<open>removable\<close> or \<^verbatim>\<open>writable\<close>, of the record that is the prototype); or something
  falsy.
\<close>

datatype 'l found = Channel "'l channel" | Truthy | Falsy

definition lookup_channel :: "string \<Rightarrow> 'l channel dict \<Rightarrow> 'l found" where
  "lookup_channel channel obj =
     (case own channel obj of
        Some c \<Rightarrow> Channel c
      | None \<Rightarrow>
          (case map_of obj ''__proto__'' of
             Some r \<Rightarrow>
               if channel = ''__proto__'' then Channel r
               else if channel = ''listener'' then Truthy
               else if channel = ''removable'' then (if removable r then Truthy else Falsy)
               else if channel = ''writable'' then (if writable r then Truthy else Falsy)
               else if inherited channel then Truthy
               else Falsy
           | None \<Rightarrow> if inherited channel then Truthy else Falsy))"

text \<open>The body of \<^verbatim>\<open>exe\<close>: the listener call, the result callback, the reset of
  \<^verbatim>\<open>data\<close>.\<close>

definition exe ::
  "('l \<Rightarrow> 'a list \<Rightarrow> 'd option option) \<Rightarrow> ('c, 'a) exe \<Rightarrow> ('l, 'c, 'a, 'd) bus_sys
     \<Rightarrow> ('l, 'c, 'a, 'd) bus_sys" where
  "exe sends e s =
     (case e of (channel, cb, args) \<Rightarrow>
        (case (if isDestroyed (bus s) then Falsy
               else lookup_channel channel (channels (bus s))) of
           Truthy \<Rightarrow> s\<lparr>calls := calls s @ [Rejected TypeError]\<rparr>
         | r \<Rightarrow>
             let s1 = (case r of
                         Channel c \<Rightarrow>
                           s\<lparr>bus := (bus s)\<lparr>data := (case sends (listener c) args of
                                                        None \<Rightarrow> data (bus s)
                                                      | Some d \<Rightarrow> d)\<rparr>,
                             calls := calls s @ [ListenerCalled channel (listener c) args]\<rparr>
                       | _ \<Rightarrow> s);
                 s2 = (if \<not> isDestroyed (bus s1) then
                         (case cb of
                            None \<Rightarrow> s1
                          | Some f \<Rightarrow>
                              s1\<lparr>calls := calls s1 @ [CallbackCalled f (data (bus s1))]\<rparr>)
                       else s1)
             in s2\<lparr>bus := (bus s2)\<lparr>data := None\<rparr>\<rparr>))"

definition sys_invoke ::
  "string \<Rightarrow> 'c option \<Rightarrow> 'a list \<Rightarrow> ('l, 'c, 'a, 'd) bus_sys
     \<Rightarrow> error + ('l, 'c, 'a, 'd) bus_sys" where
  "sys_invoke channel cb args s =
     (case bus_invoke channel cb args (bus s) of
        Inl e \<Rightarrow> Inl e
      | Inr (b, scheduled) \<Rightarrow> Inr (s\<lparr>bus := b, timers := after_all scheduled (timers s)\<rparr>))"

definition sys_handle ::
  "string \<Rightarrow> 'l \<Rightarrow> bool option \<Rightarrow> bool option \<Rightarrow> ('l, 'c, 'a, 'd) bus_sys
     \<Rightarrow> error + ('l, 'c, 'a, 'd) bus_sys" where
  "sys_handle channel l rem wr s =
     (case bus_handle channel l rem wr (bus s) of
        Inl e \<Rightarrow> Inl e
      | Inr (b, scheduled) \<Rightarrow> Inr (s\<lparr>bus := b, timers := after_all scheduled (timers s)\<rparr>))"

text \<open>Issuing a sequence of \<^verbatim>\<open>invoke\<close> calls on one channel, stopping at the first
  that throws.\<close>

fun sys_invoke_all ::
  "string \<Rightarrow> ('c option \<times> 'a list) list \<Rightarrow> ('l, 'c, 'a, 'd) bus_sys
     \<Rightarrow> error + ('l, 'c, 'a, 'd) bus_sys" where
  "sys_invoke_all channel [] s = Inr s"
| "sys_invoke_all channel ((cb, args) # rest) s =
     (case sys_invoke channel cb args s of
        Inl e \<Rightarrow> Inl e
      | Inr s' \<Rightarrow> sys_invoke_all channel rest s')"

text \<open>Firing the next timer, and firing up to \<open>k\<close> timers.\<close>

definition run_next ::
  "('l \<Rightarrow> 'a list \<Rightarrow> 'd option option) \<Rightarrow> ('l, 'c, 'a, 'd) bus_sys
     \<Rightarrow> ('l, 'c, 'a, 'd) bus_sys option" where
  "run_next sends s =
     (case pick (queue (timers s)) of
        None \<Rightarrow> None
      | Some ((due, e), rest) \<Rightarrow>
          Some (exe sends e (s\<lparr>timers := \<lparr>now = max (now (timers s)) due, queue = rest\<rparr>\<rparr>)))"

fun run ::
  "('l \<Rightarrow> 'a list \<Rightarrow> 'd option option) \<Rightarrow> nat \<Rightarrow> ('l, 'c, 'a, 'd) bus_sys
     \<Rightarrow> ('l, 'c, 'a, 'd) bus_sys" where
  "run sends 0 s = s"
| "run sends (Suc k) s =
     (case run_next sends s of None \<Rightarrow> s | Some s' \<Rightarrow> run sends k s')"

text \<open>What one dispatch on channel \<open>n\<close> with listener \<open>l\<close> logs, starting with
  \<^verbatim>\<open>data\<close> at \<^verbatim>\<open>null\<close>.\<close>

fun dispatch_log ::
  "('l \<Rightarrow> 'a list \<Rightarrow> 'd option option) \<Rightarrow> string \<Rightarrow> 'l \<Rightarrow> 'c option \<times> 'a list
     \<Rightarrow> ('l, 'c, 'a, 'd) call list" where
  "dispatch_log sends n l (cb, args) =
     ListenerCalled n l args #
     (case cb of
        None \<Rightarrow> []
      | Some f \<Rightarrow>
          [CallbackCalled f (case sends l args of None \<Rightarrow> None | Some d \<Rightarrow> d)])"

text \<open>The \<^verbatim>\<open>exe\<close> closure made by \<^verbatim>\<open>invoke(n, cb, ...args)\<close>.\<close>

fun closure :: "string \<Rightarrow> 'c option \<times> 'a list \<Rightarrow> ('c, 'a) exe" where
  "closure n (cb, args) = (n, cb, args)"

text \<open>A call that returns leaves the bus active (a call that throws leaves it as it
  was, except \<^verbatim>\<open>removeEvent\<close>, whose result says how it left the bus: \<open>left_by\<close>).\<close>

definition left_by ::
  "(error \<times> ('l, 'c, 'a, 'd) emitter) + ('l, 'c, 'a, 'd) emitter \<Rightarrow> ('l, 'c, 'a, 'd) emitter" where
  "left_by r = (case r of Inl (e, b) \<Rightarrow> b | Inr b \<Rightarrow> b)"

definition stays_active :: "error + (('l, 'c, 'a, 'd) emitter \<times> 'x) \<Rightarrow> bool" where
  "stays_active r = (case r of Inl e \<Rightarrow> True | Inr (b, x) \<Rightarrow> active b)"

section \<open>The component tree\<close>

text \<open>
  Objects live in a heap indexed by references. Every \<^verbatim>\<open>BaseElement\<close> owns the DOM
  element it was constructed with (\<^verbatim>\<open>_conf\<close>), so a reference names both the component
  and its element; the element's state is kept apart from the component's fields, since
  it survives the deletion of those fields. Of the DOM only what the component methods
  read or write is represented: an element's \<^verbatim>\<open>id\<close>, its parent element (the order of
  siblings is not represented) and its registered event listeners.

  The fields \<^verbatim>\<open>state.visible\<close>, \<^verbatim>\<open>event\<close> (a bus of the component's own), the user
  data stored in \<^verbatim>\<open>data\<close> and the array aliasing between \<^verbatim>\<open>options.content\<close> and
  \<^verbatim>\<open>content\<close> play no part in the methods embedded here and are left out.

  Of the dictionaries of a component, \<^verbatim>\<open>eventMap\<close> and the lookup registry take their
  names from the caller and are treated for every string. The keys of \<^verbatim>\<open>contentMap\<close>
  and \<^verbatim>\<open>leisElementMap\<close> are component keys: \<^verbatim>\<open>generateId(5, 10)\<close> returns at least
  twenty letters and digits, so a key is never \<^verbatim>\<open>__proto__\<close>, \<^verbatim>\<open>indexOf\<close> or
  \<^verbatim>\<open>hasOwnProperty\<close>, and an assignment under a key makes an own property.
  \<^verbatim>\<open>eventListeners\<close> is the map of the lifecycle names \<^verbatim>\<open>render\<close>, \<^verbatim>\<open>add\<close> and
  \<^verbatim>\<open>destroy\<close>; \<^verbatim>\<open>handleAllEvent\<close> looks a lifecycle name up among its own properties.
\<close>

type_synonym ref = nat

text \<open>
  The callbacks the component code passes to \<^verbatim>\<open>getObjectByIndexName\<close>:
  \<^verbatim>\<open>(e) => this.add(e)\<close>, \<^verbatim>\<open>parent => parent.add(element)\<close> and
  \<^verbatim>\<open>child => child.destroy()\<close>; and the one kind of listener the \<^verbatim>\<open>data.id\<close> setter
  registers, \<^verbatim>\<open>e => e.send(this.element)\<close>.
\<close>

datatype callback = CbAdd ref | CbAddTo ref | CbDestroy

datatype resolver = SendElement ref

type_synonym registry = "(resolver, callback, unit, ref) emitter"

text \<open>A value passed where a component is expected: a component, a string, or
  \<^verbatim>\<open>null\<close>.\<close>

datatype target = Obj ref | Name string | Null

text \<open>The \<^verbatim>\<open>listener\<close> argument of \<^verbatim>\<open>addEvent\<close>: a function with its \<^verbatim>\<open>name\<close>
  property and an identity, or something that is not a function. Each successful
  \<^verbatim>\<open>addEvent\<close> makes a fresh closure \<^verbatim>\<open>callback\<close> around it.\<close>

datatype handler = Function string nat | NotFunction

record wrapper =
  wrapped :: nat
  stamp :: nat

record node =
  nodeId :: string
  parentNode :: "ref option"
  domListeners :: "(string \<times> wrapper \<times> bool) list"

record component =
  key :: string
  content :: "ref list"
  contentMap :: "ref dict"
  rendered :: bool
  parent :: "ref option"
  eventMap :: "wrapper dict dict"
  indexName :: "string option"
  eventListeners :: "nat list dict"

text \<open>
  \<^verbatim>\<open>destroy\<close> ends by deleting every own property of the object. What is left is an
  object all of whose fields read \<^verbatim>\<open>undefined\<close>, except that \<^verbatim>\<open>add\<close> and
  \<^verbatim>\<open>SetOptions\<close> may assign its \<^verbatim>\<open>parent\<close> again.
\<close>

datatype obj = Live component | Cleared "ref option"

datatype hook = HookFn nat | HookOther

datatype log =
    HookCalled string nat ref
  | ListenerFired string nat ref "target list"
  | HandlerCalled nat ref string

datatype task =
    Exe "(callback, unit) exe"
  | DestroyPhase ref
  | ClearFields ref
  | FireLater string nat ref "target list"
  | ForgetOptions

record world =
  heap :: "ref \<Rightarrow> obj"
  nodes :: "ref \<Rightarrow> node"
  nextRef :: ref
  closures :: nat
  leisElementMap :: "ref dict"
  indexedElementEvent :: registry
  useInit :: "hook list"
  useOption :: "hook list"
  useRender :: "hook list"
  tasks :: "task timers"
  microtasks :: "(ref \<times> string) list"
  trail :: "log list"
  uncaught :: "error list"

type_synonym 'a outcome = "(error + 'a) \<times> world"

subsection \<open>Reading and writing objects\<close>

definition parent_of :: "obj \<Rightarrow> ref option" where
  "parent_of ob = (case ob of Live c \<Rightarrow> parent c | Cleared p \<Rightarrow> p)"

definition key_of :: "obj \<Rightarrow> string option" where
  "key_of ob = (case ob of Live c \<Rightarrow> Some (key c) | Cleared p \<Rightarrow> None)"

text \<open>A key used as a property name; \<^verbatim>\<open>undefined\<close> becomes the name
  \<^verbatim>\<open>"undefined"\<close>.\<close>

definition prop_name :: "string option \<Rightarrow> string" where
  "prop_name k = (case k of None \<Rightarrow> ''undefined'' | Some n \<Rightarrow> n)"

definition upd :: "ref \<Rightarrow> (component \<Rightarrow> component) \<Rightarrow> world \<Rightarrow> world" where
  "upd r f s =
     s\<lparr>heap := (heap s)(r := (case heap s r of Live c \<Rightarrow> Live (f c) | Cleared p \<Rightarrow> Cleared p))\<rparr>"

definition set_parent :: "ref \<Rightarrow> ref \<Rightarrow> world \<Rightarrow> world" where
  "set_parent r p s =
     s\<lparr>heap := (heap s)(r := (case heap s r of
                                 Live c \<Rightarrow> Live (c\<lparr>parent := Some p\<rparr>)
                               | Cleared q \<Rightarrow> Cleared (Some p)))\<rparr>"

subsection \<open>The DOM calls\<close>

fun ancestor_or_self :: "nat \<Rightarrow> (ref \<Rightarrow> node) \<Rightarrow> ref \<Rightarrow> ref \<Rightarrow> bool" where
  "ancestor_or_self 0 ns a x = (a = x)"
| "ancestor_or_self (Suc n) ns a x =
     (a = x \<or> (case parentNode (ns x) of
                  None \<Rightarrow> False
                | Some p \<Rightarrow> ancestor_or_self n ns a p))"

text \<open>\<^verbatim>\<open>this._conf.append(x)\<close> for an element \<open>x\<close>: refused when \<open>x\<close> contains
  \<^verbatim>\<open>this._conf\<close>; otherwise \<open>x\<close> leaves its old parent and becomes a child. The walk up
  the parents is bounded by the number of elements made so far.\<close>

definition dom_append :: "ref \<Rightarrow> ref \<Rightarrow> world \<Rightarrow> unit outcome" where
  "dom_append this x s =
     (if ancestor_or_self (nextRef s) (nodes s) x this then (Inl HierarchyRequestError, s)
      else (Inr (), s\<lparr>nodes := (nodes s)(x := (nodes s x)\<lparr>parentNode := Some this\<rparr>)\<rparr>))"


definition addEventListener :: "ref \<Rightarrow> string \<Rightarrow> wrapper \<Rightarrow> bool \<Rightarrow> world \<Rightarrow> world" where
  "addEventListener this eventType cb capture s =
     (if (eventType, cb, capture) \<in> set (domListeners (nodes s this)) then s
      else s\<lparr>nodes := (nodes s)(this := (nodes s this)
                 \<lparr>domListeners := domListeners (nodes s this) @ [(eventType, cb, capture)]\<rparr>)\<rparr>)"

definition removeEventListener :: "ref \<Rightarrow> string \<Rightarrow> wrapper \<Rightarrow> bool \<Rightarrow> world \<Rightarrow> world" where
  "removeEventListener this eventType cb capture s =
     s\<lparr>nodes := (nodes s)(this := (nodes s this)
          \<lparr>domListeners := remove1 (eventType, cb, capture) (domListeners (nodes s this))\<rparr>)\<rparr>"

subsection \<open>Hooks and lifecycle listeners\<close>

text \<open>\<^verbatim>\<open>hooks.callHook(name, DisplayError, element)\<close>: each entry that is a function is
  called; the first that is not makes \<^verbatim>\<open>DisplayError\<close> throw.\<close>

fun callHook :: "string \<Rightarrow> hook list \<Rightarrow> ref \<Rightarrow> world \<Rightarrow> unit outcome" where
  "callHook name [] element s = (Inr (), s)"
| "callHook name (HookFn h # hs) element s =
     callHook name hs element (s\<lparr>trail := trail s @ [HookCalled name h element]\<rparr>)"
| "callHook name (HookOther # hs) element s = (Inl LeisError, s)"

text \<open>\<^verbatim>\<open>handleAllEvent(eventName, evObject, element, timeout, ...argv)\<close>; a \<open>timeout\<close> of
  \<open>0\<close> stands for an omitted one as well.\<close>

definition handleAllEvent ::
  "string \<Rightarrow> nat list dict \<Rightarrow> ref \<Rightarrow> nat \<Rightarrow> target list \<Rightarrow> world \<Rightarrow> world" where
  "handleAllEvent eventName evObject element timeout argv s =
     (case map_of evObject eventName of
        None \<Rightarrow> s
      | Some items \<Rightarrow>
          if timeout \<noteq> 0
          then s\<lparr>tasks := foldl (\<lambda>q item. setTimeout (FireLater eventName item element argv)
                                             timeout q) (tasks s) items\<rparr>
          else s\<lparr>trail := trail s @ map (\<lambda>item. ListenerFired eventName item element argv)
                                          items\<rparr>)"

subsection \<open>The indexed lookup registry\<close>

text \<open>
  \<^verbatim>\<open>indexedElementEvent\<close> is private to the module, and \<^verbatim>\<open>invoke\<close> and \<^verbatim>\<open>handle\<close> are
  \<^verbatim>\<open>async\<close>: what they throw rejects a promise that nobody awaits. The rejection is
  recorded and the caller goes on.

  \<^verbatim>\<open>getObjectByIndexName(indexName, waitFor, clb)\<close> returns its first argument; only
  its effect is given here (the first argument is called \<open>name\<close>).
\<close>

definition getObjectByIndexName :: "target \<Rightarrow> bool \<Rightarrow> callback \<Rightarrow> world \<Rightarrow> world" where
  "getObjectByIndexName name waitFor clb s =
     (case name of
        Name n \<Rightarrow>
          if waitFor then
            (case bus_invoke n (Some clb) [] (indexedElementEvent s) of
               Inl e \<Rightarrow> s\<lparr>uncaught := uncaught s @ [e]\<rparr>
             | Inr (b, scheduled) \<Rightarrow>
                 s\<lparr>indexedElementEvent := b,
                   tasks := after_all (map Exe scheduled) (tasks s)\<rparr>)
          else s
      | Obj e \<Rightarrow> s
      | Null \<Rightarrow> s)"

text \<open>The setter of \<^verbatim>\<open>data.id\<close>. The assignment of \<^verbatim>\<open>indexName\<close> is the \<^verbatim>\<open>then\<close>
  callback of the promise: a microtask, queued only when \<^verbatim>\<open>handle\<close> did not throw.\<close>

definition set_id :: "ref \<Rightarrow> string \<Rightarrow> world \<Rightarrow> unit outcome" where
  "set_id this v s =
     (case heap s this of
        Cleared p \<Rightarrow> (Inl TypeError, s)
      | Live c \<Rightarrow>
          (case bus_handle v (SendElement this) (Some True) (Some False)
                  (indexedElementEvent s) of
             Inl e \<Rightarrow> (Inr (), s\<lparr>uncaught := uncaught s @ [e]\<rparr>)
           | Inr (b, scheduled) \<Rightarrow>
               (Inr (), s\<lparr>indexedElementEvent := b,
                         tasks := after_all (map Exe scheduled) (tasks s),
                         microtasks := microtasks s @ [(this, v)]\<rparr>)))"

definition run_microtasks :: "world \<Rightarrow> world" where
  "run_microtasks s =
     foldl (\<lambda>w (r, v). upd r (\<lambda>c. c\<lparr>indexName := Some v\<rparr>) w)
       (s\<lparr>microtasks := []\<rparr>) (microtasks s)"

subsection \<open>\<^verbatim>\<open>BaseElement\<close>\<close>

text \<open>The constructor, given the key that \<^verbatim>\<open>generateId(5, 10)\<close> produced, together
  with the \<^verbatim>\<open>document.createElement\<close> that makes its element.\<close>

definition initial_fields :: "string \<Rightarrow> component" where
  "initial_fields k =
     \<lparr>key = k, content = [], contentMap = [], rendered = False, parent = None,
      eventMap = [], indexName = None, eventListeners = []\<rparr>"

definition initial_node :: node where
  "initial_node = \<lparr>nodeId = [], parentNode = None, domListeners = []\<rparr>"

definition new_BaseElement :: "string \<Rightarrow> world \<Rightarrow> ref outcome" where
  "new_BaseElement k s =
     (let this = nextRef s;
          s1 = s\<lparr>heap := (heap s)(this := Live (initial_fields k)),
                 nodes := (nodes s)(this := initial_node),
                 nextRef := Suc this\<rparr>
      in case callHook ''useInit'' (useInit s1) this s1 of
           (Inl e, s2) \<Rightarrow> (Inl e, s2)
         | (Inr u, s2) \<Rightarrow> (Inr this, s2))"

text \<open>
  \<^verbatim>\<open>render\<close>. The first argument bounds the nesting of calls: JavaScript throws a
  \<^verbatim>\<open>RangeError\<close> when the call stack is exhausted, which is what a component that is
  (indirectly) its own child runs into. The result is the element \<^verbatim>\<open>this._conf\<close>, named
  by the component's reference.
\<close>

fun render :: "nat \<Rightarrow> ref \<Rightarrow> world \<Rightarrow> ref outcome"
  and render_children :: "nat \<Rightarrow> ref \<Rightarrow> ref list \<Rightarrow> world \<Rightarrow> unit outcome" where
  "render 0 this s = (Inl RangeError, s)"
| "render (Suc d) this s =
     (case heap s this of
        Cleared p \<Rightarrow> (Inl TypeError, s)
      | Live c \<Rightarrow>
          if rendered c then (Inr this, s)
          else
            (case render_children d this (content c) s of
               (Inl e, s1) \<Rightarrow> (Inl e, s1)
             | (Inr u, s1) \<Rightarrow>
                 (case callHook ''useRender'' (useRender s1) this s1 of
                    (Inl e, s2) \<Rightarrow> (Inl e, s2)
                  | (Inr u, s2) \<Rightarrow>
                      (case heap s2 this of
                         Cleared p \<Rightarrow> (Inl TypeError, s2)
                       | Live c2 \<Rightarrow>
                           let s3 = s2\<lparr>nodes := (nodes s2)(this :=
                                          (nodes s2 this)\<lparr>nodeId := key c2\<rparr>)\<rparr>;
                               s4 = upd this (\<lambda>c. c\<lparr>rendered := True\<rparr>) s3
                           in (Inr this,
                               handleAllEvent ''render'' (eventListeners c2) this 0 [] s4)))))"
| "render_children d this [] s = (Inr (), s)"
| "render_children d this (child # rest) s =
     (case parent_of (heap s child) of
        None \<Rightarrow> (Inl TypeError, s)
      | Some p \<Rightarrow>
          (case heap s this of
             Cleared q \<Rightarrow> (Inl TypeError, s)
           | Live c \<Rightarrow>
               if key_of (heap s p) = Some (key c) then
                 let s1 = upd this (\<lambda>c. c\<lparr>contentMap :=
                            AList.update (prop_name (key_of (heap s child))) child
                              (contentMap c)\<rparr>) s
                 in (case render d child s1 of
                       (Inl e, s2) \<Rightarrow> (Inl e, s2)
                     | (Inr h, s2) \<Rightarrow>
                         (case dom_append this h s2 of
                            (Inl e, s3) \<Rightarrow> (Inl e, s3)
                          | (Inr u, s3) \<Rightarrow> render_children d this rest s3))
               else render_children d this rest s))"

text \<open>\<^verbatim>\<open>add(elementObject)\<close>.\<close>

definition add :: "nat \<Rightarrow> ref \<Rightarrow> target \<Rightarrow> world \<Rightarrow> unit outcome" where
  "add d this elementObject s =
     (let s1 = getObjectByIndexName elementObject True (CbAdd this) s
      in case heap s1 this of
           Cleared p \<Rightarrow> (Inl TypeError, s1)
         | Live c \<Rightarrow>
             let s2 = handleAllEvent ''add'' (eventListeners c) this 10 [elementObject] s1
             in (case elementObject of
                   Obj element \<Rightarrow>
                     let s3 = set_parent element this s2;
                         s4 = upd this (\<lambda>c. c\<lparr>contentMap :=
                                AList.update (prop_name (key_of (heap s3 element))) element
                                  (contentMap c)\<rparr>) s3
                     in (case render d element s4 of
                           (Inl e, s5) \<Rightarrow> (Inl e, s5)
                         | (Inr h, s5) \<Rightarrow>
                             (case dom_append this h s5 of
                                (Inl e, s6) \<Rightarrow> (Inl e, s6)
                              | (Inr u, s6) \<Rightarrow>
                                  (Inr (), upd this (\<lambda>c. c\<lparr>content := content c @ [element]\<rparr>)
                                             s6)))
                 | Name n \<Rightarrow> (Inr (), s2)
                 | Null \<Rightarrow> (Inr (), s2)))"

text \<open>\<^verbatim>\<open>destroy()\<close> only sets a timer; \<open>destroy_phase\<close> is the body of that timer's
  callback and \<open>clear_fields\<close> the body of the timer it sets in turn.\<close>

definition destroy :: "ref \<Rightarrow> world \<Rightarrow> world" where
  "destroy this s = s\<lparr>tasks := setTimeout (DestroyPhase this) 100 (tasks s)\<rparr>"




text \<open>\<^verbatim>\<open>remove(element)\<close>.\<close>

definition remove_element :: "ref \<Rightarrow> target \<Rightarrow> world \<Rightarrow> unit outcome" where
  "remove_element this element s =
     (case element of
        Name n \<Rightarrow> (Inr (), getObjectByIndexName (Name n) True CbDestroy s)
      | Obj e \<Rightarrow> (Inr (), destroy e s)
      | Null \<Rightarrow> (Inl TypeError, s))"

text \<open>
  \<^verbatim>\<open>addEvent(eventType, listener, eventName, options)\<close>. \<open>gen\<close> is what
  \<^verbatim>\<open>generateId(3, 8)\<close> would return if called; \<open>capture\<close> is the capture flag that
  \<open>options\<close> amounts to.

  The table of the event type is found by the read \<^verbatim>\<open>this.eventMap[eventType]\<close>: for an
  inherited name that is not an own property this is a built-in, which \<^verbatim>\<open>addEvent\<close> then
  uses as the table of names (not followed). The tables of names hold the closures
  \<^verbatim>\<open>callback\<close>, which are functions: when such a table has an own property \<^verbatim>\<open>indexOf\<close>
  or \<^verbatim>\<open>hasOwnProperty\<close>, the uniqueness test \<^verbatim>\<open>has(eventName, _)\<close> calls that closure
  on the name (the closure calls the listener it wraps, logged as \<open>HandlerCalled\<close>) and
  comes out false.
\<close>

definition is_function :: "wrapper \<Rightarrow> bool" where
  "is_function w = True"

definition addEvent ::
  "string \<Rightarrow> ref \<Rightarrow> string \<Rightarrow> handler \<Rightarrow> string option \<Rightarrow> bool \<Rightarrow> world \<Rightarrow> unit outcome" where
  "addEvent gen this eventType l eventName capture s =
     (case l of
        NotFunction \<Rightarrow> (Inr (), s)
      | Function fname fid \<Rightarrow>
          (case heap s this of
             Cleared q \<Rightarrow> (Inl TypeError, s)
           | Live c \<Rightarrow>
               if own eventType (eventMap c) = None \<and> inherited eventType
               then (Inl Unrepresented, s)
               else
                 let em = (case own eventType (eventMap c) of
                             None \<Rightarrow> AList.update eventType [] (eventMap c)
                           | Some m \<Rightarrow> eventMap c);
                     s1 = upd this (\<lambda>c. c\<lparr>eventMap := em\<rparr>) s;
                     name = (case eventName of
                               None \<Rightarrow> if fname \<noteq> [] then fname else gen
                             | Some n \<Rightarrow> if n = [] then (if fname \<noteq> [] then fname else gen)
                                         else n);
                     m = (case own eventType em of None \<Rightarrow> [] | Some m \<Rightarrow> m);
                     s2 = (case probe m of
                             None \<Rightarrow> s1
                           | Some w \<Rightarrow>
                               s1\<lparr>trail := trail s1 @ [HandlerCalled (wrapped w) this name]\<rparr>)
                 in (case has is_function name m of
                       Inl e \<Rightarrow> (Inl e, s2)
                     | Inr taken \<Rightarrow>
                         if taken then (Inl UniqueType, s2)
                         else
                           let cb = \<lparr>wrapped = fid, stamp = closures s2\<rparr>;
                               s3 = upd this (\<lambda>c. c\<lparr>eventMap :=
                                      AList.update eventType (AList.update name cb m) em\<rparr>)
                                      (s2\<lparr>closures := Suc (closures s2)\<rparr>)
                           in (Inr (), addEventListener this eventType cb capture s3))))"

text \<open>
  \<^verbatim>\<open>removeEvent(eventType, eventName, options)\<close>. Both reads go through the prototype
  chain. A name that only \<^verbatim>\<open>Object.prototype\<close> defines yields a built-in that was never
  attached, so that nothing is detached and nothing deleted. When an earlier
  \<^verbatim>\<open>addEvent\<close> under the name \<^verbatim>\<open>__proto__\<close> has made a closure the prototype of the
  table, \<^verbatim>\<open>__proto__\<close> yields that closure, which is detached (and stays the
  prototype), and the names a function defines yield properties of the closure (not
  followed).
\<close>

definition function_property :: "string \<Rightarrow> bool" where
  "function_property k =
     (k \<in> set [''length'', ''name'', ''prototype'', ''arguments'', ''caller'',
               ''apply'', ''bind'', ''call''])"

definition removeEvent :: "ref \<Rightarrow> string \<Rightarrow> string \<Rightarrow> bool \<Rightarrow> world \<Rightarrow> unit outcome" where
  "removeEvent this eventType eventName capture s =
     (if eventType \<noteq> [] \<and> eventName \<noteq> [] then
        (case heap s this of
           Cleared q \<Rightarrow> (Inl TypeError, s)
         | Live c \<Rightarrow>
             (case own eventType (eventMap c) of
                None \<Rightarrow> if inherited eventType then (Inl Unrepresented, s) else (Inr (), s)
              | Some m \<Rightarrow>
                  (case own eventName m of
                     Some cb \<Rightarrow>
                       (Inr (),
                        upd this (\<lambda>c. c\<lparr>eventMap :=
                            AList.update eventType (AList.delete eventName m) (eventMap c)\<rparr>)
                          (removeEventListener this eventType cb capture s))
                   | None \<Rightarrow>
                       (case map_of m ''__proto__'' of
                          None \<Rightarrow> (Inr (), s)
                        | Some w \<Rightarrow>
                            if eventName = ''__proto__''
                            then (Inr (), removeEventListener this eventType w capture s)
                            else if function_property eventName then (Inl Unrepresented, s)
                            else (Inr (), s)))))
      else (Inr (), s))"

subsection \<open>The option binder and the factory\<close>

text \<open>
  Of a configuration object, the reserved keys \<^verbatim>\<open>content\<close>, \<^verbatim>\<open>parent\<close> and
  \<^verbatim>\<open>data.id\<close> are represented (an absent key is \<open>None\<close>, or \<open>Null\<close> for
  \<^verbatim>\<open>parent\<close>); the configuration carries no other key. The two timers that only
  release the configuration object are kept as tasks without effect.
\<close>

record options =
  opt_content :: "ref list option"
  opt_parent :: target
  opt_id :: "string option"

definition SetOptions :: "nat \<Rightarrow> ref \<Rightarrow> options \<Rightarrow> world \<Rightarrow> unit outcome" where
  "SetOptions d element opts s =
     (let s1 = (case opt_content opts of
                  None \<Rightarrow> s
                | Some items \<Rightarrow>
                    foldl (\<lambda>w item. set_parent item element w)
                      (upd element (\<lambda>c. c\<lparr>content := items\<rparr>) s) items)
      in case (case opt_parent opts of
                 Null \<Rightarrow> (Inr (), s1)
               | Name n \<Rightarrow>
                   if n = [] then (Inr (), s1)
                   else (Inr (), getObjectByIndexName (Name n) True (CbAddTo element) s1)
               | Obj p \<Rightarrow> add d p (Obj element) s1) of
           (Inl e, s2) \<Rightarrow> (Inl e, s2)
         | (Inr u, s2) \<Rightarrow>
             (case (case opt_id opts of
                      None \<Rightarrow> (Inr (), s2)
                    | Some v \<Rightarrow> if v = [] then (Inr (), s2) else set_id element v s2) of
                (Inl e, s3) \<Rightarrow> (Inl e, s3)
              | (Inr u, s3) \<Rightarrow>
                  (Inr (), s3\<lparr>tasks := setTimeout ForgetOptions 2000 (tasks s3)\<rparr>)))"

text \<open>\<^verbatim>\<open>create(TagName, options)\<close>, given the key the constructor will draw.\<close>

definition create :: "nat \<Rightarrow> string \<Rightarrow> options \<Rightarrow> world \<Rightarrow> ref outcome" where
  "create d k opts s =
     (case new_BaseElement k s of
        (Inl e, s1) \<Rightarrow> (Inl e, s1)
      | (Inr element, s1) \<Rightarrow>
          (case SetOptions d element opts s1 of
             (Inl e, s2) \<Rightarrow> (Inl e, s2)
           | (Inr u, s2) \<Rightarrow>
               (case callHook ''useOption'' (useOption s2) element s2 of
                  (Inl e, s3) \<Rightarrow> (Inl e, s3)
                | (Inr u, s3) \<Rightarrow>
                    (Inr element,
                     s3\<lparr>leisElementMap :=
                          AList.update (prop_name (key_of (heap s3 element))) element
                            (leisElementMap s3),
                        tasks := setTimeout ForgetOptions 4000 (tasks s3)\<rparr>))))"

subsection \<open>Running timers\<close>






subsection \<open>The module's start\<close>

text \<open>
  When the module is evaluated it constructs \<^verbatim>\<open>main\<close> (and names it \<^verbatim>\<open>"main"\<close>),
  \<^verbatim>\<open>win\<close>, and a \<^verbatim>\<open>style\<close> element that it renders at once. No hook is
  registered anywhere in the bundle. The three keys are what \<^verbatim>\<open>generateId\<close> draws.
\<close>

definition world0 :: world where
  "world0 =
     \<lparr> heap = (\<lambda>r. Cleared None),
       nodes = (\<lambda>r. initial_node),
       nextRef = 0, closures = 0, leisElementMap = [], indexedElementEvent = newEmitter,
       useInit = [], useOption = [], useRender = [],
       tasks = \<lparr>now = 0, queue = []\<rparr>, microtasks = [], trail = [], uncaught = [] \<rparr>"

definition boot :: "string \<Rightarrow> string \<Rightarrow> string \<Rightarrow> world" where
  "boot k0 k1 k2 =
     (let s1 = snd (new_BaseElement k0 world0);
          s2 = snd (set_id 0 ''main'' s1);
          s3 = snd (new_BaseElement k1 s2);
          s4 = snd (new_BaseElement k2 s3)
      in snd (render 1 2 s4))"

subsection \<open>Observations used in the statements\<close>

text \<open>What \<^verbatim>\<open>handleAllEvent\<close> adds to the timer queue when it is given a timeout, and
  what it logs when it is not.\<close>

definition listeners_later ::
  "string \<Rightarrow> nat list dict \<Rightarrow> ref \<Rightarrow> nat \<Rightarrow> target list \<Rightarrow> task timers \<Rightarrow> task timers" where
  "listeners_later eventName evObject element timeout argv q =
     (case map_of evObject eventName of
        None \<Rightarrow> q
      | Some items \<Rightarrow>
          foldl (\<lambda>q item. setTimeout (FireLater eventName item element argv) timeout q)
            q items)"

definition listeners_now ::
  "string \<Rightarrow> nat list dict \<Rightarrow> ref \<Rightarrow> target list \<Rightarrow> log list" where
  "listeners_now eventName evObject element argv =
     (case map_of evObject eventName of
        None \<Rightarrow> []
      | Some items \<Rightarrow> map (\<lambda>item. ListenerFired eventName item element argv) items)"

text \<open>\<^verbatim>\<open>this.eventMap[eventType][eventName]\<close>, and the listeners attached to the
  component's element.\<close>

definition registration :: "world \<Rightarrow> ref \<Rightarrow> string \<Rightarrow> string \<Rightarrow> wrapper option" where
  "registration s this eventType eventName =
     (case heap s this of
        Cleared q \<Rightarrow> None
      | Live c \<Rightarrow>
          (case own eventType (eventMap c) of
             None \<Rightarrow> None
           | Some m \<Rightarrow> own eventName m))"

definition attached :: "world \<Rightarrow> ref \<Rightarrow> (string \<times> wrapper \<times> bool) set" where
  "attached s this = set (domListeners (nodes s this))"

text \<open>What \<^verbatim>\<open>callHook\<close> logs when every entry is a function.\<close>

fun hook_calls :: "string \<Rightarrow> hook list \<Rightarrow> ref \<Rightarrow> log list" where
  "hook_calls name [] element = []"
| "hook_calls name (HookFn h # hs) element = HookCalled name h element # hook_calls name hs element"
| "hook_calls name (HookOther # hs) element = hook_calls name hs element"


text \<open>The component that a dispatch on channel \<open>n\<close> of the registry hands to its
  result callback: what the channel's listener sends.\<close>

definition resolves :: "world \<Rightarrow> string \<Rightarrow> ref option" where
  "resolves s n =
     (case own n (channels (indexedElementEvent s)) of
        None \<Rightarrow> None
      | Some c \<Rightarrow> (case listener c of SendElement el \<Rightarrow> Some el))"

text \<open>The DOM keeps at most one registration of a given listener for a given type
  and capture flag.\<close>

definition no_duplicates :: "world \<Rightarrow> ref \<Rightarrow> bool" where
  "no_duplicates s this = distinct (domListeners (nodes s this))"










subsection \<open>Example sessions\<close>

text \<open>
  The state once the module has been evaluated, with keys \<^verbatim>\<open>k0\<close>, \<^verbatim>\<open>k1\<close>,
  \<^verbatim>\<open>k2\<close> drawn for \<^verbatim>\<open>main\<close>, \<^verbatim>\<open>win\<close> and the style element (references 0, 1, 2),
  and the configurations used in the example sessions.
\<close>

definition started :: world where
  "started = run_microtasks (boot ''k0'' ''k1'' ''k2'')"

definition no_options :: options where
  "no_options = \<lparr>opt_content = None, opt_parent = Null, opt_id = None\<rparr>"


text \<open>\<^verbatim>\<open>a = create("div"); b = create("div")\<close>: references 3 and 4.\<close>

definition twins :: world where
  "twins = snd (create 8 ''kb'' no_options (snd (create 8 ''ka'' no_options started)))"




text \<open>The channel the module registers for \<^verbatim>\<open>main\<close>, and the two timers each
  \<^verbatim>\<open>create\<close> leaves behind.\<close>

definition main_channel :: "resolver channel dict" where
  "main_channel =
     [(''main'', \<lparr>listener = SendElement 0, removable = True, writable = False\<rparr>)]"

definition forget :: "(nat \<times> task) list" where
  "forget = [(2000, ForgetOptions), (4000, ForgetOptions)]"

section \<open>Properties of the channel bus\<close>

subsection \<open>Dictionaries\<close>

lemma own_plain_name [simp]: "k \<noteq> ''__proto__'' \<Longrightarrow> own k obj = map_of obj k"
  by (simp add: own_def)

lemma own_proto [simp]: "own ''__proto__'' obj = None"
  by (simp add: own_def)

lemma storable_names:
  "storable k \<Longrightarrow> k \<noteq> ''__proto__''"
  "storable k \<Longrightarrow> k \<noteq> ''indexOf''"
  "storable k \<Longrightarrow> k \<noteq> ''hasOwnProperty''"
  by (simp_all add: storable_def)

lemma ordinary_names:
  "ordinary k \<Longrightarrow> \<not> inherited k"
  "ordinary k \<Longrightarrow> storable k"
  by (auto simp add: ordinary_def storable_def inherited_def)

lemma has_plain: "plain obj \<Longrightarrow> has callable k obj = Inr (own k obj \<noteq> None)"
  by (simp add: has_def plain_def)

lemma has_returns_plain: "has no_function k obj = Inr r \<Longrightarrow> plain obj"
  by (auto simp add: has_def plain_def no_function_def split: option.splits if_splits)

lemma plain_empty [simp]: "plain []"
  by (simp add: plain_def probe_def)

lemma plain_update:
  "plain obj \<Longrightarrow> k \<noteq> ''indexOf'' \<Longrightarrow> k \<noteq> ''hasOwnProperty'' \<Longrightarrow>
     plain (AList.update k v obj)"
  by (auto simp add: plain_def probe_def update_conv' split: option.splits)

lemma plain_delete: "plain obj \<Longrightarrow> plain (AList.delete k obj)"
  by (auto simp add: plain_def probe_def delete_conv' split: option.splits)

lemma plain_discard: "plain obj \<Longrightarrow> plain (discard k obj)"
  by (simp add: discard_def plain_delete)

lemma delete_absent: "map_of obj k = None \<Longrightarrow> AList.delete k obj = obj"
  by (induction obj) (auto split: if_splits)

lemma discard_name [simp]: "k \<noteq> ''__proto__'' \<Longrightarrow> discard k obj = AList.delete k obj"
  by (simp add: discard_def)

subsection \<open>Methods of an active bus\<close>

lemma method_active:
  "active b \<Longrightarrow> name \<in> set method_names \<Longrightarrow> call_method name original undef b = original b"
  by (auto simp: active_def call_method_def method_names_def)

lemma method_cleared:
  assumes "isDestroyed b" "map_of (EVENTS b) name = Some CheckState"
  shows "call_method name original undef b = Inl EVENT_DESTROYED"
  using assms by (simp add: call_method_def checkState_def)

lemma clear_active:
  assumes "active b"
  shows "bus_clear b =
           Inr (True, b\<lparr>channels := [], inWaitChannel := [],
                        EVENTS := map (\<lambda>m. (m, CheckState)) method_names,
                        data := None, isDestroyed := True\<rparr>)"
proof -
  have "bus_clear b = clear b"
    unfolding bus_clear_def using assms by (rule method_active) (simp add: method_names_def)
  also have "\<dots> = Inr (True, b\<lparr>channels := [], inWaitChannel := [],
                        EVENTS := map (\<lambda>m. (m, CheckState)) method_names,
                        data := None, isDestroyed := True\<rparr>)"
    using assms by (simp add: clear_def checkState_def active_def)
  finally show ?thesis .
qed

lemma bus_methods_active:
  assumes "active b"
  shows "bus_invoke n cb args b = invoke n cb args b"
    and "bus_handle n l rem wr b = handle n l rem wr b"
    and "bus_removeEvent co n b = removeChannel co n b"
    and "bus_hasEvent n b = hasEvent n b"
    and "bus_eventsList b = eventsList b"
    and "bus_clear b = clear b"
  using assms
  by (simp_all add: bus_invoke_def bus_handle_def bus_removeEvent_def bus_hasEvent_def
        bus_eventsList_def bus_clear_def method_active method_names_def)

lemma handle_active:
  assumes "active b" "bus_handle n l rem wr b = Inr (b', sch)"
  shows "active b'"
  using assms
  by (auto simp: bus_methods_active handle_def active_def Let_def split: sum.splits if_splits)

lemma invoke_active:
  assumes "active b" "bus_invoke n cb args b = Inr (b', sch)"
  shows "active b'"
  using assms
  by (auto simp: bus_methods_active invoke_def active_def Let_def
           split: sum.splits if_splits option.splits)

lemma removeEvent_active:
  assumes "active b"
  shows "case bus_removeEvent co n b of Inl (e, b') \<Rightarrow> active b' | Inr b' \<Rightarrow> active b'"
  using assms
  by (auto simp: bus_methods_active removeChannel_def active_def Let_def
           split: sum.splits if_splits option.splits)

lemma active_new: "active newEmitter"
  by (simp add: active_def newEmitter_def)


subsection \<open>Timers of a bus on its own\<close>

lemma pick_uniform: "pick (map (Pair d) (x # xs)) = Some ((d, x), map (Pair d) xs)"
  by (induction xs arbitrary: x) auto

lemma lookup_own:
  "n \<noteq> ''__proto__'' \<Longrightarrow> map_of obj n = Some c \<Longrightarrow> lookup_channel n obj = Channel c"
  by (simp add: lookup_channel_def)

lemma exe_dispatch:
  assumes "\<not> isDestroyed (bus s)" "data (bus s) = None"
    and "n \<noteq> ''__proto__''" "map_of (channels (bus s)) n = Some c"
  shows "exe sends (n, cb, args) s
           = s\<lparr>calls := calls s @ dispatch_log sends n (listener c) (cb, args)\<rparr>"
  using assms
  by (cases s; cases "bus s") (auto simp: exe_def lookup_own Let_def split: option.splits)

lemma run_uniform:
  assumes "\<not> isDestroyed (bus s)" "data (bus s) = None"
    and "n \<noteq> ''__proto__''" "map_of (channels (bus s)) n = Some c"
    and "queue (timers s) = map (Pair d) (map (closure n) ivs)"
  shows "calls (run sends (length ivs + j) s)
           = calls s @ concat (map (dispatch_log sends n (listener c)) ivs)
         \<and> queue (timers (run sends (length ivs + j) s)) = []
         \<and> bus (run sends (length ivs + j) s) = bus s"
  using assms
proof (induction ivs arbitrary: s)
  case Nil
  then show ?case by (cases j) (simp_all add: run_next_def)
next
  case (Cons iv ivs)
  obtain cb args where iv: "iv = (cb, args)" by (cases iv)
  let ?s0 = "s\<lparr>timers := \<lparr>now = max (now (timers s)) d,
                 queue = map (Pair d) (map (closure n) ivs)\<rparr>\<rparr>"
  let ?s' = "?s0\<lparr>calls := calls s @ dispatch_log sends n (listener c) (cb, args)\<rparr>"
  have "queue (timers s) = map (Pair d) ((n, cb, args) # map (closure n) ivs)"
    using Cons.prems(5) by (simp add: iv)
  then have pk: "pick (queue (timers s))
                   = Some ((d, (n, cb, args)), map (Pair d) (map (closure n) ivs))"
    by (simp only: pick_uniform)
  have ex: "exe sends (n, cb, args) ?s0 = ?s'"
    using Cons.prems(1-4) exe_dispatch [of ?s0 n c sends cb args] by simp
  have nx: "run_next sends s = Some ?s'"
    unfolding run_next_def pk using ex by simp
  have "calls (run sends (length ivs + j) ?s')
           = calls ?s' @ concat (map (dispatch_log sends n (listener c)) ivs)
         \<and> queue (timers (run sends (length ivs + j) ?s')) = []
         \<and> bus (run sends (length ivs + j) ?s') = bus ?s'"
    by (rule Cons.IH) (use Cons.prems(1-4) in simp_all)
  then show ?case using nx by (simp add: iv)
qed

lemma invoke_absent:
  assumes "active b" "validateChannelName n = Inr ()" "ordinary n"
    and "plain (channels b)" "map_of (channels b) n = None"
  shows "bus_invoke n cb args b =
           Inr (b\<lparr>inWaitChannel :=
                    AList.update n
                      ((case map_of (inWaitChannel b) n of None \<Rightarrow> [] | Some q \<Rightarrow> q)
                         @ [(n, cb, args)]) (inWaitChannel b)\<rparr>, [])"
proof -
  have n: "n \<noteq> ''__proto__''" "\<not> inherited n"
    using ordinary_names [OF assms(3)] by (simp_all add: storable_names)
  show ?thesis
    using assms n
    by (simp add: bus_methods_active invoke_def has_plain active_def split: option.splits)
qed

lemma after_all_queue:
  "after_all fs tm = tm\<lparr>queue := queue tm @ map (Pair (now tm + 1)) fs\<rparr>"
proof (induction fs arbitrary: tm)
  case Nil
  show ?case by (simp add: after_all_def)
next
  case (Cons f fs)
  have "after_all (f # fs) tm = after_all fs (after 1 f tm)"
    by (simp add: after_all_def)
  then show ?case using Cons.IH [of "after 1 f tm"]
    by (simp add: after_def setTimeout_def)
qed

lemma invoke_all_absent:
  assumes "active (bus s)" "validateChannelName n = Inr ()" "ordinary n"
    and "plain (channels (bus s))" "map_of (channels (bus s)) n = None"
    and "plain (inWaitChannel (bus s))"
  shows "\<exists>s1. sys_invoke_all n ivs s = Inr s1
           \<and> active (bus s1) \<and> channels (bus s1) = channels (bus s)
           \<and> data (bus s1) = data (bus s) \<and> timers s1 = timers s \<and> calls s1 = calls s
           \<and> plain (inWaitChannel (bus s1))
           \<and> (case map_of (inWaitChannel (bus s1)) n of None \<Rightarrow> [] | Some q \<Rightarrow> q)
                = (case map_of (inWaitChannel (bus s)) n of None \<Rightarrow> [] | Some q \<Rightarrow> q)
                    @ map (closure n) ivs"
  using assms
proof (induction ivs arbitrary: s)
  case Nil
  then show ?case by simp
next
  case (Cons iv ivs)
  obtain cb args where iv: "iv = (cb, args)" by (cases iv)
  let ?b = "(bus s)\<lparr>inWaitChannel :=
                    AList.update n
                      ((case map_of (inWaitChannel (bus s)) n of None \<Rightarrow> [] | Some q \<Rightarrow> q)
                         @ [(n, cb, args)]) (inWaitChannel (bus s))\<rparr>"
  let ?s = "s\<lparr>bus := ?b\<rparr>"
  note st = storable_names [OF ordinary_names(2) [OF Cons.prems(3)]]
  have step: "sys_invoke n cb args s = Inr ?s"
    using Cons.prems by (simp add: sys_invoke_def invoke_absent after_all_def)
  have act: "active (bus ?s)" using Cons.prems(1) by (simp add: active_def)
  have pl: "plain (inWaitChannel (bus ?s))"
    using plain_update [OF Cons.prems(6) st(2,3)] by simp
  have "\<exists>s1. sys_invoke_all n ivs ?s = Inr s1
           \<and> active (bus s1) \<and> channels (bus s1) = channels (bus ?s)
           \<and> data (bus s1) = data (bus ?s) \<and> timers s1 = timers ?s \<and> calls s1 = calls ?s
           \<and> plain (inWaitChannel (bus s1))
           \<and> (case map_of (inWaitChannel (bus s1)) n of None \<Rightarrow> [] | Some q \<Rightarrow> q)
                = (case map_of (inWaitChannel (bus ?s)) n of None \<Rightarrow> [] | Some q \<Rightarrow> q)
                    @ map (closure n) ivs"
    by (rule Cons.IH [OF act Cons.prems(2,3) _ _ pl]) (use Cons.prems in simp_all)
  then show ?case using step by (auto simp: iv update_conv')
qed

lemma handle_absent:
  assumes "active b" "validateChannelName n = Inr ()" "n \<noteq> ''__proto__''"
    and "plain (channels b)" "map_of (channels b) n = None" "plain (inWaitChannel b)"
  shows "bus_handle n l rem wr b =
           Inr (b\<lparr>inWaitChannel := AList.delete n (inWaitChannel b),
                  channels := AList.update n
                     \<lparr>listener = l, removable = default_true rem, writable = default_true wr\<rparr>
                     (channels b)\<rparr>,
                case map_of (inWaitChannel b) n of None \<Rightarrow> [] | Some q \<Rightarrow> q)"
proof (cases "map_of (inWaitChannel b) n")
  case None
  then have "AList.delete n (inWaitChannel b) = inWaitChannel b"
    by (rule delete_absent)
  then show ?thesis
    using assms None
    by (simp add: bus_methods_active handle_def checkState_def active_def has_plain)
next
  case (Some q)
  then show ?thesis
    using assms
    by (simp add: bus_methods_active handle_def checkState_def active_def has_plain)
qed

lemma drain_after_handle:
  assumes "active (bus s)" "data (bus s) = None" "validateChannelName n = Inr ()"
    and "ordinary n" "plain (channels (bus s))" "map_of (channels (bus s)) n = None"
    and "plain (inWaitChannel (bus s))" "map_of (inWaitChannel (bus s)) n = None"
    and "queue (timers s) = []"
  shows "\<exists>s1 s2. sys_invoke_all n ivs s = Inr s1
           \<and> (case map_of (inWaitChannel (bus s1)) n of None \<Rightarrow> [] | Some q \<Rightarrow> q)
                = map (closure n) ivs
           \<and> sys_handle n l rem wr s1 = Inr s2
           \<and> map_of (inWaitChannel (bus s2)) n = None
           \<and> calls (run sends (length ivs + j) s2)
                = calls s @ concat (map (dispatch_log sends n l) ivs)
           \<and> queue (timers (run sends (length ivs + j) s2)) = []
           \<and> map_of (inWaitChannel (bus (run sends (length ivs + j) s2))) n = None"
proof -
  note st = storable_names [OF ordinary_names(2) [OF assms(4)]]
  obtain s1 where s1: "sys_invoke_all n ivs s = Inr s1" "active (bus s1)"
      "channels (bus s1) = channels (bus s)" "data (bus s1) = data (bus s)"
      "timers s1 = timers s" "calls s1 = calls s" "plain (inWaitChannel (bus s1))"
      "(case map_of (inWaitChannel (bus s1)) n of None \<Rightarrow> [] | Some q \<Rightarrow> q)
         = (case map_of (inWaitChannel (bus s)) n of None \<Rightarrow> [] | Some q \<Rightarrow> q)
             @ map (closure n) ivs"
    using invoke_all_absent [OF assms(1,3,4,5,6,7), of ivs] by blast
  have pend: "(case map_of (inWaitChannel (bus s1)) n of None \<Rightarrow> [] | Some q \<Rightarrow> q)
                = map (closure n) ivs"
    using s1(8) assms(8) by simp
  let ?c = "\<lparr>listener = l, removable = default_true rem, writable = default_true wr\<rparr>"
  let ?b2 = "(bus s1)\<lparr>inWaitChannel := AList.delete n (inWaitChannel (bus s1)),
                  channels := AList.update n ?c (channels (bus s1))\<rparr>"
  let ?s2 = "s1\<lparr>bus := ?b2,
                 timers := (timers s1)\<lparr>queue := map (Pair (now (timers s1) + 1))
                                                (map (closure n) ivs)\<rparr>\<rparr>"
  have hd: "bus_handle n l rem wr (bus s1)
                   = Inr (?b2, map (closure n) ivs)"
    using handle_absent [OF s1(2) assms(3) st(1) _ _ s1(7), of l rem wr] pend s1(3) assms(5,6)
    by simp
  have s2: "sys_handle n l rem wr s1 = Inr ?s2"
    using hd s1(5) assms(9) by (simp add: sys_handle_def after_all_queue)
  have nd: "\<not> isDestroyed (bus ?s2)" using s1(2) by (simp add: active_def)
  have dat: "data (bus ?s2) = None" using s1(4) assms(2) by simp
  have ch: "map_of (channels (bus ?s2)) n = Some ?c" by (simp add: update_conv')
  have qu: "queue (timers ?s2) = map (Pair (now (timers s1) + 1)) (map (closure n) ivs)"
    by simp
  have r: "calls (run sends (length ivs + j) ?s2)
             = calls ?s2 @ concat (map (dispatch_log sends n (listener ?c)) ivs)
           \<and> queue (timers (run sends (length ivs + j) ?s2)) = []
           \<and> bus (run sends (length ivs + j) ?s2) = bus ?s2"
    by (rule run_uniform [OF nd dat st(1) ch qu])
  have nh: "map_of (inWaitChannel (bus ?s2)) n = None" by (simp add: delete_conv')
  show ?thesis
    using s1(1) pend s2 nh r s1(6) by (intro exI [of _ s1] exI [of _ ?s2]) simp
qed

lemma valid_a: "validateChannelName ''a'' = Inr ()"
  by (simp add: validateChannelName_def trim_def isWhiteSpace_def)

lemma ordinary_a: "ordinary ''a''"
  by (simp add: ordinary_def inherited_def)

lemma exe_bus:
  "isDestroyed (bus (exe sends e s)) = isDestroyed (bus s)
   \<and> EVENTS (bus (exe sends e s)) = EVENTS (bus s)"
  by (cases e) (auto simp: exe_def Let_def split: option.splits found.splits)

lemma new_sys_quiet:
  "active (bus new_bus_sys)" "data (bus new_bus_sys) = None"
  "plain (channels (bus new_bus_sys))" "map_of (channels (bus new_bus_sys)) n = None"
  "plain (inWaitChannel (bus new_bus_sys))" "map_of (inWaitChannel (bus new_bus_sys)) n = None"
  "queue (timers new_bus_sys) = []" "calls new_bus_sys = []"
  by (simp_all add: new_bus_sys_def active_new) (simp_all add: newEmitter_def)


subsection \<open>Deferred invocation\<close>

text \<open>
  Delivery of a call made before the channel exists, for an ordinary name. On an active,
  idle bus (no timer pending, \<^verbatim>\<open>data\<close> at \<^verbatim>\<open>null\<close>) whose two tables are plain, with no
  channel \<open>n\<close> and nothing queued for \<open>n\<close>, where \<open>n\<close> is an ordinary name that
  \<^verbatim>\<open>validateChannelName\<close> accepts: \<^verbatim>\<open>invoke(n, cb, ...args)\<close> returns and nothing runs
  while the bus waits; a later \<^verbatim>\<open>handle(n, l)\<close> returns without having called anything;
  and once timers have fired, the log has grown by exactly one call of \<open>l\<close> on \<open>args\<close>,
  followed, when \<open>cb\<close> was supplied, by one call of \<open>cb\<close> on the value \<open>l\<close> passed to
  \<^verbatim>\<open>event.send\<close> (\<^verbatim>\<open>null\<close> if it never called it). No timer is left.
\<close>

lemma deferred_invoke_ordinary_name:
  assumes "active (bus s)" "data (bus s) = None" "validateChannelName n = Inr ()"
    and "ordinary n" "plain (channels (bus s))" "map_of (channels (bus s)) n = None"
    and "plain (inWaitChannel (bus s))" "map_of (inWaitChannel (bus s)) n = None"
    and "queue (timers s) = []" and "0 < k"
  shows "\<exists>s1 s2. sys_invoke n cb args s = Inr s1
           \<and> run sends i s1 = s1
           \<and> sys_handle n l rem wr s1 = Inr s2
           \<and> calls s2 = calls s
           \<and> calls (run sends k s2)
                = calls s @ ListenerCalled n l args #
                    (case cb of
                       None \<Rightarrow> []
                     | Some f \<Rightarrow>
                         [CallbackCalled f (case sends l args of None \<Rightarrow> None | Some d \<Rightarrow> d)])
           \<and> queue (timers (run sends k s2)) = []"
proof -
  have k: "length [(cb, args)] + (k - 1) = k" using assms(10) by simp
  obtain s1 s2 where *: "sys_invoke_all n [(cb, args)] s = Inr s1"
      "sys_handle n l rem wr s1 = Inr s2"
      "calls (run sends k s2)
         = calls s @ concat (map (dispatch_log sends n l) [(cb, args)])"
      "queue (timers (run sends k s2)) = []"
    using drain_after_handle [OF assms(1-9), of "[(cb, args)]" l rem wr sends "k - 1"]
    unfolding k by blast
  have i1: "sys_invoke n cb args s = Inr s1"
    using *(1) by (simp split: sum.splits)
  then have t1: "timers s1 = timers s" "calls s1 = calls s"
    using assms(1,3,4,5,6) by (auto simp: sys_invoke_def invoke_absent after_all_def)
  have idle: "run sends i s1 = s1"
    using t1 assms(9) by (cases i) (simp_all add: run_next_def)
  have c2: "calls s2 = calls s"
    using *(2) t1 by (auto simp: sys_handle_def split: sum.splits)
  show ?thesis
    using i1 idle *(2) c2 *(3,4) by (intro exI [of _ s1] exI [of _ s2]) simp
qed

lemma valid_toString: "validateChannelName ''toString'' = Inr ()"
  by (simp add: validateChannelName_def trim_def isWhiteSpace_def)

lemma valid_indexOf: "validateChannelName ''indexOf'' = Inr ()"
  by (simp add: validateChannelName_def trim_def isWhiteSpace_def)

text \<open>
  Claim C1 at the channel name \<^verbatim>\<open>toString\<close>, on a fresh bus. The name is accepted by
  \<^verbatim>\<open>validateChannelName\<close>, but \<^verbatim>\<open>invoke("toString", cb, 10)\<close> reads
  \<^verbatim>\<open>inWaitChannel["toString"]\<close>, finds the function every object inherits, queues nothing
  and throws a \<^verbatim>\<open>TypeError\<close>. The later \<^verbatim>\<open>handle("toString", l)\<close> defines the channel
  and schedules nothing: no timer is pending and neither \<open>l\<close> nor \<open>cb\<close> is ever called.
\<close>

theorem invoke_inherited_name_lost:
  "validateChannelName ''toString'' = Inr ()
   \<and> sys_invoke ''toString'' (Some 1) [10] (new_bus_sys :: (nat, nat, nat, nat) bus_sys)
       = Inl TypeError
   \<and> sys_handle ''toString'' 7 None None (new_bus_sys :: (nat, nat, nat, nat) bus_sys)
       = Inr (new_bus_sys\<lparr>bus := newEmitter\<lparr>channels :=
                [(''toString'', \<lparr>listener = 7, removable = True, writable = True\<rparr>)]\<rparr>\<rparr>)
   \<and> queue (timers (new_bus_sys\<lparr>bus := newEmitter\<lparr>channels :=
                [(''toString'', \<lparr>listener = 7, removable = True, writable = True\<rparr>)]\<rparr>\<rparr>
          :: (nat, nat, nat, nat) bus_sys)) = []
   \<and> calls (new_bus_sys\<lparr>bus := newEmitter\<lparr>channels :=
                [(''toString'', \<lparr>listener = 7, removable = True, writable = True\<rparr>)]\<rparr>\<rparr>
          :: (nat, nat, nat, nat) bus_sys) = []"
proof -
  have a: "active (newEmitter :: (nat, nat, nat, nat) emitter)" by (rule active_new)
  have i: "bus_invoke ''toString'' (Some 1) [10] (newEmitter :: (nat, nat, nat, nat) emitter)
             = Inl TypeError"
    unfolding bus_methods_active [OF a]
    by (simp add: invoke_def valid_toString has_plain inherited_def newEmitter_def)
  have h: "bus_handle ''toString'' 7 None None (newEmitter :: (nat, nat, nat, nat) emitter)
             = Inr (newEmitter\<lparr>channels :=
                [(''toString'', \<lparr>listener = 7, removable = True, writable = True\<rparr>)]\<rparr>, [])"
    unfolding bus_methods_active [OF a]
    by (simp add: handle_def checkState_def valid_toString has_plain default_true_def
          newEmitter_def)
  show ?thesis
    using i h
    by (simp add: sys_invoke_def sys_handle_def new_bus_sys_def valid_toString after_all_def)
qed

subsection \<open>Draining the pending calls\<close>

text \<open>
  First in, first out, for an ordinary name. From the same starting point, for every
  sequence \<open>ivs\<close> of \<^verbatim>\<open>invoke\<close> calls on \<open>n\<close>: all return, the queue for \<open>n\<close> holds their
  closures in the order of the calls, \<^verbatim>\<open>handle(n, l)\<close> returns and leaves no queue entry
  for \<open>n\<close>, and firing the timers logs the dispatches one after the other in the order
  the calls were issued.
\<close>

lemma pending_queue_ordinary_name:
  assumes "active (bus s)" "data (bus s) = None" "validateChannelName n = Inr ()"
    and "ordinary n" "plain (channels (bus s))" "map_of (channels (bus s)) n = None"
    and "plain (inWaitChannel (bus s))" "map_of (inWaitChannel (bus s)) n = None"
    and "queue (timers s) = []" and "length ivs \<le> k"
  shows "\<exists>s1 s2. sys_invoke_all n ivs s = Inr s1
           \<and> (case map_of (inWaitChannel (bus s1)) n of None \<Rightarrow> [] | Some q \<Rightarrow> q)
                = map (closure n) ivs
           \<and> sys_handle n l rem wr s1 = Inr s2
           \<and> map_of (inWaitChannel (bus s2)) n = None
           \<and> calls (run sends k s2)
                = calls s @ concat (map (dispatch_log sends n l) ivs)
           \<and> queue (timers (run sends k s2)) = []
           \<and> map_of (inWaitChannel (bus (run sends k s2))) n = None"
proof -
  have k: "length ivs + (k - length ivs) = k" using assms(10) by simp
  show ?thesis
    using drain_after_handle [OF assms(1-9), of ivs l rem wr sends "k - length ivs"]
    unfolding k .
qed

text \<open>
  Claim C4 at the channel name \<^verbatim>\<open>indexOf\<close>, on a fresh bus. Two \<^verbatim>\<open>invoke\<close> calls are
  queued in order under the own property \<^verbatim>\<open>indexOf\<close> of \<^verbatim>\<open>inWaitChannel\<close>. From then on
  \<^verbatim>\<open>has(_, inWaitChannel)\<close> calls that array instead of testing the name: the
  \<^verbatim>\<open>handle("indexOf", l)\<close> that should drain the queue throws a \<^verbatim>\<open>TypeError\<close> before it
  runs or deletes anything, and so does \<^verbatim>\<open>handle\<close> for any other name.
\<close>

theorem pending_queue_stuck:
  "validateChannelName ''indexOf'' = Inr ()
   \<and> sys_invoke_all ''indexOf'' [(Some 1, [10]), (None, [20])]
        (new_bus_sys :: (nat, nat, nat, nat) bus_sys)
       = Inr (new_bus_sys\<lparr>bus := newEmitter\<lparr>inWaitChannel :=
                [(''indexOf'', [(''indexOf'', Some 1, [10]), (''indexOf'', None, [20])])]\<rparr>\<rparr>)
   \<and> sys_handle ''indexOf'' 7 None None
        (new_bus_sys\<lparr>bus := newEmitter\<lparr>inWaitChannel :=
                [(''indexOf'', [(''indexOf'', Some 1, [10]), (''indexOf'', None, [20])])]\<rparr>\<rparr>
          :: (nat, nat, nat, nat) bus_sys)
       = Inl TypeError
   \<and> sys_handle ''a'' 7 None None
        (new_bus_sys\<lparr>bus := newEmitter\<lparr>inWaitChannel :=
                [(''indexOf'', [(''indexOf'', Some 1, [10]), (''indexOf'', None, [20])])]\<rparr>\<rparr>
          :: (nat, nat, nat, nat) bus_sys)
       = Inl TypeError"
proof -
  let ?q1 = "[(''indexOf'', [(''indexOf'', Some (1::nat), [10::nat])])]"
  let ?q2 = "[(''indexOf'', [(''indexOf'', Some (1::nat), [10::nat]), (''indexOf'', None, [20])])]"
  let ?b1 = "newEmitter\<lparr>inWaitChannel := ?q1\<rparr> :: (nat, nat, nat, nat) emitter"
  let ?b2 = "newEmitter\<lparr>inWaitChannel := ?q2\<rparr> :: (nat, nat, nat, nat) emitter"
  have a: "active (newEmitter :: (nat, nat, nat, nat) emitter)" "active ?b1" "active ?b2"
    by (simp_all add: active_def newEmitter_def)
  have i1: "bus_invoke ''indexOf'' (Some 1) [10] (newEmitter :: (nat, nat, nat, nat) emitter)
              = Inr (?b1, [])"
    unfolding bus_methods_active [OF a(1)]
    by (simp add: invoke_def valid_indexOf has_plain inherited_def newEmitter_def)
  have i2: "bus_invoke ''indexOf'' None [20] ?b1 = Inr (?b2, [])"
    unfolding bus_methods_active [OF a(2)]
    by (simp add: invoke_def valid_indexOf has_plain inherited_def newEmitter_def)
  have h: "bus_handle n 7 None None ?b2 = Inl TypeError"
    if "validateChannelName n = Inr ()" for n
    unfolding bus_methods_active [OF a(3)]
    using that
    by (simp add: handle_def checkState_def has_plain has_def probe_def no_function_def
          newEmitter_def own_def)
  show ?thesis
    using i1 i2 h [OF valid_indexOf] h [OF valid_a]
    by (simp add: sys_invoke_def sys_handle_def new_bus_sys_def valid_indexOf after_all_def)
qed

subsection \<open>Redefining a channel\<close>

text \<open>
  Claim C5 as stated fails: \<^verbatim>\<open>handle(n, l1, false)\<close> sets \<^verbatim>\<open>removable\<close> only, the
  fourth parameter \<^verbatim>\<open>writable\<close> keeps its default \<^verbatim>\<open>true\<close>, and a second \<^verbatim>\<open>handle\<close>
  replaces the listener.
\<close>

theorem handle_removable_false_overwritten:
  "bus_handle ''a'' (1::nat) (Some False) None (newEmitter :: (nat, nat, nat, nat) emitter)
     = Inr (newEmitter\<lparr>channels := [(''a'', \<lparr>listener = 1, removable = False, writable = True\<rparr>)]\<rparr>, [])
   \<and> bus_handle ''a'' (2::nat) None None
        (newEmitter\<lparr>channels := [(''a'', \<lparr>listener = 1, removable = False, writable = True\<rparr>)]\<rparr>
           :: (nat, nat, nat, nat) emitter)
     = Inr (newEmitter\<lparr>channels := [(''a'', \<lparr>listener = 2, removable = True, writable = True\<rparr>)]\<rparr>, [])"
  by (simp add: bus_handle_def call_method_def newEmitter_def method_names_def handle_def
        checkState_def valid_a default_true_def has_def probe_def)

text \<open>
  Claim C5, amended: if \<^verbatim>\<open>handle(n, l1, removable, false)\<close> (\<^verbatim>\<open>writable\<close> false, any
  \<^verbatim>\<open>removable\<close>) succeeds on an active bus, for a name \<open>n\<close> that an assignment stores as
  an own property without disturbing \<^verbatim>\<open>has\<close> (any name but \<^verbatim>\<open>__proto__\<close>, \<^verbatim>\<open>indexOf\<close>
  and \<^verbatim>\<open>hasOwnProperty\<close>), then a subsequent \<^verbatim>\<open>handle(n, l2, ...)\<close> fails with
  \<^verbatim>\<open>NON_WRITABLE_CHANNEL\<close> and \<open>l1\<close> is still the listener of channel \<open>n\<close>.
\<close>

theorem handle_nonwritable_rejected:
  assumes "active b" and "storable n"
    and "bus_handle n l1 rem (Some False) b = Inr (b1, sch)"
  shows "bus_handle n l2 rem' wr' b1 = Inl NON_WRITABLE_CHANNEL
         \<and> map_option listener (map_of (channels b1) n) = Some l1"
proof -
  note st = storable_names [OF assms(2)]
  have a1: "active b1" using assms(1,3) by (rule handle_active)
  have h: "handle n l1 rem (Some False) b = Inr (b1, sch)"
    using assms by (simp add: bus_methods_active)
  then have valid: "validateChannelName n = Inr ()"
    by (auto simp: handle_def split: sum.splits)
  from h obtain r where "has no_function n (channels b) = Inr r"
    by (auto simp: handle_def split: sum.splits)
  then have pl: "plain (channels b)" by (rule has_returns_plain)
  from h have ch: "channels b1 = AList.update n
                     \<lparr>listener = l1, removable = default_true rem, writable = False\<rparr> (channels b)"
    by (auto simp: handle_def Let_def default_true_def split: sum.splits if_splits)
  have pl1: "plain (channels b1)" unfolding ch by (rule plain_update [OF pl st(2,3)])
  have m: "map_of (channels b1) n
             = Some \<lparr>listener = l1, removable = default_true rem, writable = False\<rparr>"
    by (simp add: ch update_conv')
  have "handle n l2 rem' wr' b1 = Inl NON_WRITABLE_CHANNEL"
    using a1 valid m pl1 st(1) by (simp add: handle_def checkState_def active_def has_plain)
  then show ?thesis using a1 m by (simp add: bus_methods_active)
qed

theorem handle_nonwritable_rejected_witness:
  "active (newEmitter :: (nat, nat, nat, nat) emitter) \<and> storable ''a''
   \<and> bus_handle ''a'' (1::nat) (Some False) (Some False) (newEmitter :: (nat, nat, nat, nat) emitter)
       = Inr (newEmitter\<lparr>channels := [(''a'', \<lparr>listener = 1, removable = False, writable = False\<rparr>)]\<rparr>, [])
   \<and> bus_handle ''a'' (2::nat) None None
        (newEmitter\<lparr>channels := [(''a'', \<lparr>listener = 1, removable = False, writable = False\<rparr>)]\<rparr>
           :: (nat, nat, nat, nat) emitter)
       = Inl NON_WRITABLE_CHANNEL
   \<and> map_option listener
        (map_of (channels (newEmitter\<lparr>channels :=
            [(''a'', \<lparr>listener = 1::nat, removable = False, writable = False\<rparr>)]\<rparr>
              :: (nat, nat, nat, nat) emitter)) ''a'') = Some 1"
proof -
  have s: "storable ''a''" by (simp add: storable_def)
  have h: "bus_handle ''a'' (1::nat) (Some False) (Some False)
             (newEmitter :: (nat, nat, nat, nat) emitter)
       = Inr (newEmitter\<lparr>channels := [(''a'', \<lparr>listener = 1, removable = False, writable = False\<rparr>)]\<rparr>, [])"
    unfolding bus_methods_active [OF active_new]
    by (simp add: handle_def checkState_def valid_a default_true_def newEmitter_def has_plain)
  show ?thesis
    using handle_nonwritable_rejected [OF active_new s h, of 2 None None] active_new h s by simp
qed

subsection \<open>The destroyed state\<close>

text \<open>
  Claim C8 as stated fails for the queries: \<^verbatim>\<open>clear\<close> rebinds every method of the
  instance, \<^verbatim>\<open>hasEvent\<close> and \<^verbatim>\<open>eventsList\<close> included, to \<^verbatim>\<open>checkState\<close>, so after
  \<^verbatim>\<open>clear()\<close> the queries throw \<^verbatim>\<open>EVENT_DESTROYED\<close> as well.
\<close>

theorem hasEvent_fails_after_clear:
  "bus_clear (newEmitter :: (nat, nat, nat, nat) emitter)
     = Inr (True, newEmitter\<lparr>EVENTS := zip method_names (replicate 7 CheckState),
                             isDestroyed := True\<rparr>)
   \<and> bus_hasEvent ''a''
        (newEmitter\<lparr>EVENTS := zip method_names (replicate 7 CheckState), isDestroyed := True\<rparr>
           :: (nat, nat, nat, nat) emitter) = Inl EVENT_DESTROYED
   \<and> bus_eventsList
        (newEmitter\<lparr>EVENTS := zip method_names (replicate 7 CheckState), isDestroyed := True\<rparr>
           :: (nat, nat, nat, nat) emitter) = Inl EVENT_DESTROYED"
  by (simp add: bus_clear_def bus_hasEvent_def bus_eventsList_def call_method_def clear_def
        checkState_def newEmitter_def method_names_def numeral_eq_Suc)

text \<open>
  Claim C8, amended: once \<^verbatim>\<open>clear()\<close> has run on an active bus, every method of the
  instance --- \<^verbatim>\<open>handle\<close>, \<^verbatim>\<open>invoke\<close>, \<^verbatim>\<open>removeEvent\<close>, \<^verbatim>\<open>clear\<close>, and also the
  queries \<^verbatim>\<open>hasEvent\<close> and \<^verbatim>\<open>eventsList\<close> --- fails with \<^verbatim>\<open>EVENT_DESTROYED\<close>, and a
  timer that fires afterwards leaves the flag up: no step leads back. On an active
  bus, \<^verbatim>\<open>handle\<close>, \<^verbatim>\<open>invoke\<close>, \<^verbatim>\<open>removeEvent\<close> and a firing timer leave the bus
  active: only \<^verbatim>\<open>clear\<close> destroys it.
\<close>

theorem clear_is_final:
  assumes "active b"
  shows "\<exists>b'. bus_clear b = Inr (True, b') \<and> isDestroyed b'
           \<and> bus_handle n l rem wr b' = Inl EVENT_DESTROYED
           \<and> bus_invoke n cb args b' = Inl EVENT_DESTROYED
           \<and> bus_removeEvent co n b' = Inl (EVENT_DESTROYED, b')
           \<and> bus_clear b' = Inl EVENT_DESTROYED
           \<and> bus_hasEvent n b' = Inl EVENT_DESTROYED
           \<and> bus_eventsList b' = Inl EVENT_DESTROYED
           \<and> isDestroyed (bus (exe sends e \<lparr>bus = b', timers = tm, calls = cs\<rparr>))
           \<and> stays_active (bus_handle n l rem wr b)
           \<and> stays_active (bus_invoke n cb args b)
           \<and> active (left_by (bus_removeEvent co n b))
           \<and> active (bus (exe sends e \<lparr>bus = b, timers = tm, calls = cs\<rparr>))"
proof -
  let ?b' = "b\<lparr>channels := [], inWaitChannel := [],
               EVENTS := map (\<lambda>m. (m, CheckState)) method_names,
               data := None, isDestroyed := True\<rparr>"
  have cl: "bus_clear b = Inr (True, ?b')" using assms by (rule clear_active)
  have d: "isDestroyed ?b'" by simp
  have sl: "\<And>name. name \<in> set method_names \<Longrightarrow> map_of (EVENTS ?b') name = Some CheckState"
    by (auto simp: method_names_def)
  have f1: "bus_handle n l rem wr ?b' = Inl EVENT_DESTROYED"
    unfolding bus_handle_def by (rule method_cleared [OF d sl]) (simp add: method_names_def)
  have f2: "bus_invoke n cb args ?b' = Inl EVENT_DESTROYED"
    unfolding bus_invoke_def by (rule method_cleared [OF d sl]) (simp add: method_names_def)
  have "call_method ''removeEvent'' (\<lambda>b. Inr (removeChannel co n b)) (Inr ?b') ?b'
          = Inl EVENT_DESTROYED"
    by (rule method_cleared [OF d sl]) (simp add: method_names_def)
  then have f3: "bus_removeEvent co n ?b' = Inl (EVENT_DESTROYED, ?b')"
    by (simp add: bus_removeEvent_def)
  have f4: "bus_clear ?b' = Inl EVENT_DESTROYED"
    unfolding bus_clear_def by (rule method_cleared [OF d sl]) (simp add: method_names_def)
  have f5: "bus_hasEvent n ?b' = Inl EVENT_DESTROYED"
    unfolding bus_hasEvent_def by (rule method_cleared [OF d sl]) (simp add: method_names_def)
  have f6: "bus_eventsList ?b' = Inl EVENT_DESTROYED"
    unfolding bus_eventsList_def by (rule method_cleared [OF d sl]) (simp add: method_names_def)
  have e1: "isDestroyed (bus (exe sends e \<lparr>bus = ?b', timers = tm, calls = cs\<rparr>))"
    by (simp add: exe_bus)
  have a1: "stays_active (bus_handle n l rem wr b)"
    using handle_active [OF assms] by (auto simp: stays_active_def split: sum.splits)
  have a2: "stays_active (bus_invoke n cb args b)"
    using invoke_active [OF assms] by (auto simp: stays_active_def split: sum.splits)
  have a3: "active (left_by (bus_removeEvent co n b))"
    using removeEvent_active [OF assms, of co n]
    by (auto simp: left_by_def split: sum.splits)
  have a4: "active (bus (exe sends e \<lparr>bus = b, timers = tm, calls = cs\<rparr>))"
    using assms by (simp add: active_def exe_bus)
  show ?thesis
    using cl d f1 f2 f3 f4 f5 f6 e1 a1 a2 a3 a4 by (intro exI [of _ ?b']) simp
qed

theorem clear_is_final_witness:
  "active (newEmitter :: (nat, nat, nat, nat) emitter)
   \<and> (\<exists>b'. bus_clear (newEmitter :: (nat, nat, nat, nat) emitter) = Inr (True, b')
          \<and> bus_handle ''a'' 1 None None b' = Inl EVENT_DESTROYED
          \<and> bus_eventsList b' = Inl EVENT_DESTROYED)"
  using clear_is_final [OF active_new, where n = "''a''" and l = 1 and rem = None and wr = None] active_new
  by blast

section \<open>Basic facts about the component tree\<close>


lemma handleAllEvent_now:
  "handleAllEvent n ev el 0 argv s = s\<lparr>trail := trail s @ listeners_now n ev el argv\<rparr>"
  by (cases s) (simp add: handleAllEvent_def listeners_now_def split: option.splits)

lemma handleAllEvent_frame [simp]:
  "heap (handleAllEvent n ev el t argv s) = heap s"
  "nodes (handleAllEvent n ev el t argv s) = nodes s"
  "nextRef (handleAllEvent n ev el t argv s) = nextRef s"
  "closures (handleAllEvent n ev el t argv s) = closures s"
  "leisElementMap (handleAllEvent n ev el t argv s) = leisElementMap s"
  "indexedElementEvent (handleAllEvent n ev el t argv s) = indexedElementEvent s"
  "useInit (handleAllEvent n ev el t argv s) = useInit s"
  "useOption (handleAllEvent n ev el t argv s) = useOption s"
  "useRender (handleAllEvent n ev el t argv s) = useRender s"
  "microtasks (handleAllEvent n ev el t argv s) = microtasks s"
  "uncaught (handleAllEvent n ev el t argv s) = uncaught s"
  by (simp_all add: handleAllEvent_def split: option.splits)

lemma handleAllEvent_none [simp]: "handleAllEvent n [] el t argv s = s"
  by (simp add: handleAllEvent_def)

lemma listeners_none [simp]:
  "listeners_later n [] el t argv q = q" "listeners_now n [] el argv = []"
  by (simp_all add: listeners_later_def listeners_now_def)

lemma upd_frame [simp]:
  "nodes (upd r f s) = nodes s"
  "nextRef (upd r f s) = nextRef s"
  "closures (upd r f s) = closures s"
  "leisElementMap (upd r f s) = leisElementMap s"
  "indexedElementEvent (upd r f s) = indexedElementEvent s"
  "useInit (upd r f s) = useInit s"
  "useOption (upd r f s) = useOption s"
  "useRender (upd r f s) = useRender s"
  "tasks (upd r f s) = tasks s"
  "microtasks (upd r f s) = microtasks s"
  "trail (upd r f s) = trail s"
  "uncaught (upd r f s) = uncaught s"
  by (simp_all add: upd_def)


lemma set_parent_frame [simp]:
  "nodes (set_parent r p s) = nodes s"
  "nextRef (set_parent r p s) = nextRef s"
  "closures (set_parent r p s) = closures s"
  "leisElementMap (set_parent r p s) = leisElementMap s"
  "indexedElementEvent (set_parent r p s) = indexedElementEvent s"
  "useInit (set_parent r p s) = useInit s"
  "useOption (set_parent r p s) = useOption s"
  "useRender (set_parent r p s) = useRender s"
  "tasks (set_parent r p s) = tasks s"
  "microtasks (set_parent r p s) = microtasks s"
  "trail (set_parent r p s) = trail s"
  "uncaught (set_parent r p s) = uncaught s"
  by (simp_all add: set_parent_def)

lemma set_parent_heap:
  "heap (set_parent r p s) x =
     (if x = r then (case heap s r of Live c \<Rightarrow> Live (c\<lparr>parent := Some p\<rparr>)
                                    | Cleared q \<Rightarrow> Cleared (Some p))
      else heap s x)"
  by (simp add: set_parent_def)



lemma valid_main: "validateChannelName ''main'' = Inr ()"
  by (simp add: validateChannelName_def trim_def isWhiteSpace_def)

lemma valid_x: "validateChannelName ''x'' = Inr ()"
  by (simp add: validateChannelName_def trim_def isWhiteSpace_def)

lemma new_BaseElement_plain:
  assumes "useInit s = []"
  shows "new_BaseElement k s =
           (Inr (nextRef s),
            s\<lparr>heap := (heap s)(nextRef s := Live (initial_fields k)),
              nodes := (nodes s)(nextRef s := initial_node),
              nextRef := Suc (nextRef s)\<rparr>)"
  using assms by (simp add: new_BaseElement_def Let_def)

lemma set_id_fresh:
  assumes "heap s this = Live c" "active (indexedElementEvent s)"
    and "validateChannelName v = Inr ()" "v \<noteq> ''__proto__''"
    and "plain (channels (indexedElementEvent s))"
    and "map_of (channels (indexedElementEvent s)) v = None"
    and "plain (inWaitChannel (indexedElementEvent s))"
  shows "set_id this v s =
           (Inr (),
            s\<lparr>indexedElementEvent := (indexedElementEvent s)
                 \<lparr>inWaitChannel := AList.delete v (inWaitChannel (indexedElementEvent s)),
                  channels := AList.update v
                     \<lparr>listener = SendElement this, removable = True, writable = False\<rparr>
                     (channels (indexedElementEvent s))\<rparr>,
              tasks := after_all
                 (map Exe (case map_of (inWaitChannel (indexedElementEvent s)) v of
                             None \<Rightarrow> [] | Some q \<Rightarrow> q)) (tasks s),
              microtasks := microtasks s @ [(this, v)]\<rparr>)"
  using assms(1) handle_absent [OF assms(2-7), of "SendElement this" "Some True" "Some False"]
  by (simp add: set_id_def default_true_def)

lemma set_id_taken:
  assumes "heap s this = Live c" "active (indexedElementEvent s)"
    and "validateChannelName v = Inr ()" "v \<noteq> ''__proto__''"
    and "plain (channels (indexedElementEvent s))"
    and "map_of (channels (indexedElementEvent s)) v = Some ch" "\<not> writable ch"
  shows "set_id this v s = (Inr (), s\<lparr>uncaught := uncaught s @ [NON_WRITABLE_CHANNEL]\<rparr>)"
  using assms
  by (simp add: set_id_def bus_methods_active handle_def checkState_def active_def has_plain)


lemma render_leaf:
  assumes "heap s this = Live c" "\<not> rendered c" "content c = []" "useRender s = []"
  shows "render (Suc d) this s =
           (Inr this,
            s\<lparr>heap := (heap s)(this := Live (c\<lparr>rendered := True\<rparr>)),
              nodes := (nodes s)(this := (nodes s this)\<lparr>nodeId := key c\<rparr>),
              trail := trail s @ listeners_now ''render'' (eventListeners c) this []\<rparr>)"
  using assms by (simp add: Let_def handleAllEvent_now upd_def)

subsection \<open>The factory\<close>

lemma create_plain:
  assumes "useInit s = []" "useOption s = []"
  shows "create d k no_options s =
           (Inr (nextRef s),
            s\<lparr>heap := (heap s)(nextRef s := Live (initial_fields k)),
              nodes := (nodes s)(nextRef s := initial_node),
              nextRef := Suc (nextRef s),
              leisElementMap := AList.update k (nextRef s) (leisElementMap s),
              tasks := setTimeout ForgetOptions 4000 (setTimeout ForgetOptions 2000 (tasks s))\<rparr>)"
  using assms
  by (simp add: create_def new_BaseElement_plain SetOptions_def no_options_def Let_def
        key_of_def prop_name_def initial_fields_def)


subsection \<open>The example sessions, evaluated\<close>

lemma active_new_registry: "active newEmitter"
  by (simp add: active_def newEmitter_def)

lemma world0_fields [simp]:
  "heap world0 = (\<lambda>r. Cleared None)" "nodes world0 = (\<lambda>r. initial_node)"
  "nextRef world0 = 0" "closures world0 = 0" "leisElementMap world0 = []"
  "indexedElementEvent world0 = newEmitter"
  "useInit world0 = []" "useOption world0 = []" "useRender world0 = []"
  "tasks world0 = \<lparr>now = 0, queue = []\<rparr>" "microtasks world0 = []"
  "trail world0 = []" "uncaught world0 = []"
  by (simp_all add: world0_def)

lemma newEmitter_fields [simp]:
  "channels newEmitter = []" "inWaitChannel newEmitter = []" "data newEmitter = None"
  "isDestroyed newEmitter = False"
  by (simp_all add: newEmitter_def)

lemma started_eq:
  "started =
     world0\<lparr>heap := (\<lambda>r. Cleared None)
               (0 := Live ((initial_fields ''k0'')\<lparr>indexName := Some ''main''\<rparr>),
                Suc 0 := Live (initial_fields ''k1''),
                Suc (Suc 0) := Live ((initial_fields ''k2'')\<lparr>rendered := True\<rparr>)),
            nodes := (\<lambda>r. initial_node)(Suc (Suc 0) := initial_node\<lparr>nodeId := ''k2''\<rparr>),
            nextRef := 3,
            indexedElementEvent := newEmitter\<lparr>channels := main_channel\<rparr>\<rparr>"
proof -
  let ?W1 = "world0\<lparr>heap := (heap world0)(0 := Live (initial_fields ''k0'')),
                    nodes := (nodes world0)(0 := initial_node), nextRef := Suc 0\<rparr>"
  let ?W2 = "?W1\<lparr>indexedElementEvent := newEmitter\<lparr>channels := main_channel\<rparr>,
                  microtasks := [(0, ''main'')]\<rparr>"
  let ?W3 = "?W2\<lparr>heap := (heap ?W2)(Suc 0 := Live (initial_fields ''k1'')),
                  nodes := (nodes ?W2)(Suc 0 := initial_node), nextRef := Suc (Suc 0)\<rparr>"
  let ?W4 = "?W3\<lparr>heap := (heap ?W3)(Suc (Suc 0) := Live (initial_fields ''k2'')),
                  nodes := (nodes ?W3)(Suc (Suc 0) := initial_node), nextRef := 3\<rparr>"
  let ?W5 = "?W4\<lparr>heap := (heap ?W4)(Suc (Suc 0) := Live ((initial_fields ''k2'')\<lparr>rendered := True\<rparr>)),
                  nodes := (nodes ?W4)(Suc (Suc 0) := initial_node\<lparr>nodeId := ''k2''\<rparr>)\<rparr>"
  have e1: "new_BaseElement ''k0'' world0 = (Inr 0, ?W1)"
    by (simp add: new_BaseElement_plain)
  have e2: "set_id 0 ''main'' ?W1 = (Inr (), ?W2)"
    by (subst set_id_fresh [where c = "initial_fields ''k0''"])
       (simp_all add: active_new_registry valid_main after_all_def main_channel_def)
  have e3: "new_BaseElement ''k1'' ?W2 = (Inr (Suc 0), ?W3)"
    by (simp add: new_BaseElement_plain)
  have e4: "new_BaseElement ''k2'' ?W3 = (Inr (Suc (Suc 0)), ?W4)"
    by (simp add: new_BaseElement_plain numeral_3_eq_3)
  have e5: "render 1 2 ?W4 = (Inr 2, ?W5)"
    unfolding One_nat_def
    by (subst render_leaf [where c = "initial_fields ''k2''"])
       (simp_all add: initial_fields_def numeral_2_eq_2)
  have "boot ''k0'' ''k1'' ''k2'' = ?W5"
    by (simp only: boot_def Let_def e1 e2 e3 e4 e5 snd_conv)
  then show ?thesis
    by (simp add: started_def run_microtasks_def upd_def initial_fields_def fun_eq_iff)
qed


lemma started_fields [simp]:
  "heap started = (\<lambda>r. Cleared None)
               (0 := Live ((initial_fields ''k0'')\<lparr>indexName := Some ''main''\<rparr>),
                Suc 0 := Live (initial_fields ''k1''),
                Suc (Suc 0) := Live ((initial_fields ''k2'')\<lparr>rendered := True\<rparr>))"
  "nodes started = (\<lambda>r. initial_node)(Suc (Suc 0) := initial_node\<lparr>nodeId := ''k2''\<rparr>)"
  "nextRef started = 3" "closures started = 0" "leisElementMap started = []"
  "indexedElementEvent started = newEmitter\<lparr>channels := main_channel\<rparr>"
  "useInit started = []" "useOption started = []" "useRender started = []"
  "tasks started = \<lparr>now = 0, queue = []\<rparr>" "microtasks started = []"
  "trail started = []" "uncaught started = []"
  by (simp_all add: started_eq)

lemma twins_eq:
  "twins =
     started\<lparr>heap := (heap started)(3 := Live (initial_fields ''ka''),
                                      4 := Live (initial_fields ''kb'')),
             nodes := (nodes started)(3 := initial_node, 4 := initial_node),
             nextRef := 5,
             leisElementMap := [(''ka'', 3), (''kb'', 4)],
             tasks := \<lparr>now = 0, queue = forget @ forget\<rparr>\<rparr>"
proof -
  let ?A = "started\<lparr>heap := (heap started)(3 := Live (initial_fields ''ka'')),
                    nodes := (nodes started)(3 := initial_node),
                    nextRef := 4,
                    leisElementMap := [(''ka'', 3)],
                    tasks := \<lparr>now = 0, queue = forget\<rparr>\<rparr>"
  have e1: "create 8 ''ka'' no_options started = (Inr 3, ?A)"
    by (simp add: create_plain setTimeout_def forget_def)
  have e2: "create 8 ''kb'' no_options ?A = (Inr 4, ?A
       \<lparr>heap := (heap ?A)(4 := Live (initial_fields ''kb'')),
        nodes := (nodes ?A)(4 := initial_node),
        nextRef := 5,
        leisElementMap := [(''ka'', 3), (''kb'', 4)],
        tasks := \<lparr>now = 0, queue = forget @ forget\<rparr>\<rparr>)"
    by (simp add: create_plain setTimeout_def forget_def)
  show ?thesis
    by (simp only: twins_def e1 e2 snd_conv) simp
qed

subsection \<open>Microtasks\<close>

lemma run_microtasks_frame [simp]:
  "nodes (run_microtasks s) = nodes s"
  "nextRef (run_microtasks s) = nextRef s"
  "closures (run_microtasks s) = closures s"
  "leisElementMap (run_microtasks s) = leisElementMap s"
  "indexedElementEvent (run_microtasks s) = indexedElementEvent s"
  "useInit (run_microtasks s) = useInit s"
  "useOption (run_microtasks s) = useOption s"
  "useRender (run_microtasks s) = useRender s"
  "tasks (run_microtasks s) = tasks s"
  "microtasks (run_microtasks s) = []"
  "trail (run_microtasks s) = trail s"
  "uncaught (run_microtasks s) = uncaught s"
proof -
  have *: "\<And>w. nodes (foldl (\<lambda>w (r, v). upd r (\<lambda>c. c\<lparr>indexName := Some v\<rparr>) w) w ms) = nodes w
     \<and> nextRef (foldl (\<lambda>w (r, v). upd r (\<lambda>c. c\<lparr>indexName := Some v\<rparr>) w) w ms) = nextRef w
     \<and> closures (foldl (\<lambda>w (r, v). upd r (\<lambda>c. c\<lparr>indexName := Some v\<rparr>) w) w ms) = closures w
     \<and> leisElementMap (foldl (\<lambda>w (r, v). upd r (\<lambda>c. c\<lparr>indexName := Some v\<rparr>) w) w ms) = leisElementMap w
     \<and> indexedElementEvent (foldl (\<lambda>w (r, v). upd r (\<lambda>c. c\<lparr>indexName := Some v\<rparr>) w) w ms) = indexedElementEvent w
     \<and> useInit (foldl (\<lambda>w (r, v). upd r (\<lambda>c. c\<lparr>indexName := Some v\<rparr>) w) w ms) = useInit w
     \<and> useOption (foldl (\<lambda>w (r, v). upd r (\<lambda>c. c\<lparr>indexName := Some v\<rparr>) w) w ms) = useOption w
     \<and> useRender (foldl (\<lambda>w (r, v). upd r (\<lambda>c. c\<lparr>indexName := Some v\<rparr>) w) w ms) = useRender w
     \<and> tasks (foldl (\<lambda>w (r, v). upd r (\<lambda>c. c\<lparr>indexName := Some v\<rparr>) w) w ms) = tasks w
     \<and> microtasks (foldl (\<lambda>w (r, v). upd r (\<lambda>c. c\<lparr>indexName := Some v\<rparr>) w) w ms) = microtasks w
     \<and> trail (foldl (\<lambda>w (r, v). upd r (\<lambda>c. c\<lparr>indexName := Some v\<rparr>) w) w ms) = trail w
     \<and> uncaught (foldl (\<lambda>w (r, v). upd r (\<lambda>c. c\<lparr>indexName := Some v\<rparr>) w) w ms) = uncaught w" for ms
    by (induction ms) (auto simp: split_def)
  show "nodes (run_microtasks s) = nodes s"
  "nextRef (run_microtasks s) = nextRef s"
  "closures (run_microtasks s) = closures s"
  "leisElementMap (run_microtasks s) = leisElementMap s"
  "indexedElementEvent (run_microtasks s) = indexedElementEvent s"
  "useInit (run_microtasks s) = useInit s"
  "useOption (run_microtasks s) = useOption s"
  "useRender (run_microtasks s) = useRender s"
  "tasks (run_microtasks s) = tasks s"
  "microtasks (run_microtasks s) = []"
  "trail (run_microtasks s) = trail s"
  "uncaught (run_microtasks s) = uncaught s"
    by (simp_all add: run_microtasks_def *)
qed

lemma run_microtasks_one:
  "microtasks s = [(r, v)] \<Longrightarrow>
     heap (run_microtasks s) = (heap s)(r := (case heap s r of
                                     Live c \<Rightarrow> Live (c\<lparr>indexName := Some v\<rparr>)
                                   | Cleared p \<Rightarrow> Cleared p))"
  by (simp add: run_microtasks_def upd_def)

subsection \<open>Timers that release configurations\<close>



lemma pick_single [simp]: "pick [x] = Some (x, [])"
  by simp






lemma ancestor_or_self_root:
  "parentNode (ns x) = None \<Longrightarrow> ancestor_or_self n ns a x = (a = x)"
  by (cases n) simp_all


subsection \<open>Adding a child, by object and by index name\<close>

lemma callHook_functions:
  "HookOther \<notin> set hs \<Longrightarrow>
     callHook name hs element s = (Inr (), s\<lparr>trail := trail s @ hook_calls name hs element\<rparr>)"
proof (induction hs arbitrary: s)
  case Nil
  then show ?case by simp
next
  case (Cons h hs)
  then show ?case by (cases h) simp_all
qed

lemma render_leaf_hooks:
  assumes "heap s this = Live c" "\<not> rendered c" "content c = []"
    and "HookOther \<notin> set (useRender s)"
  shows "render (Suc d) this s =
           (Inr this,
            s\<lparr>heap := (heap s)(this := Live (c\<lparr>rendered := True\<rparr>)),
              nodes := (nodes s)(this := (nodes s this)\<lparr>nodeId := key c\<rparr>),
              trail := trail s @ hook_calls ''useRender'' (useRender s) this
                         @ listeners_now ''render'' (eventListeners c) this []\<rparr>)"
  using assms by (simp add: Let_def handleAllEvent_now upd_def callHook_functions)

lemma ancestor_or_self_cong:
  "(\<And>x. parentNode (ns x) = parentNode (ns' x)) \<Longrightarrow>
     ancestor_or_self n ns a x = ancestor_or_self n ns' a x"
  by (induction n arbitrary: x) (auto split: option.splits)

lemma ancestor_or_self_nodeId [simp]:
  "ancestor_or_self n (ns(c := (ns c)\<lparr>nodeId := k\<rparr>)) a x = ancestor_or_self n ns a x"
  by (rule ancestor_or_self_cong) simp

lemma render_simple:
  assumes "heap s this = Live c" "rendered c \<or> content c = []"
    and "HookOther \<notin> set (useRender s)"
  shows "render (Suc d) this s =
           (Inr this,
            s\<lparr>heap := (heap s)(this := Live (c\<lparr>rendered := True\<rparr>)),
              nodes := (nodes s)(this := (nodes s this)
                 \<lparr>nodeId := (if rendered c then nodeId (nodes s this) else key c)\<rparr>),
              trail := trail s @ (if rendered c then []
                 else hook_calls ''useRender'' (useRender s) this
                        @ listeners_now ''render'' (eventListeners c) this [])\<rparr>)"
proof (cases "rendered c")
  case True
  then have "c\<lparr>rendered := True\<rparr> = c" by simp
  then show ?thesis using assms(1) True by (cases s) (simp add: fun_upd_idem)
next
  case False
  then show ?thesis using render_leaf_hooks [OF assms(1) False _ assms(3)] assms(2) by simp
qed






section \<open>Properties of the component tree\<close>

subsection \<open>Named event registrations\<close>

lemma registration_own:
  "heap s this = Live c \<Longrightarrow>
     registration s this ty n
       = (case own ty (eventMap c) of None \<Rightarrow> None | Some m \<Rightarrow> own n m)"
  by (simp add: registration_def)

lemma table_plain:
  assumes "heap s this = Live c"
    and "registration s this ty ''indexOf'' = None"
    and "registration s this ty ''hasOwnProperty'' = None"
  shows "probe (case own ty (eventMap c) of None \<Rightarrow> [] | Some m \<Rightarrow> m) = None"
  using assms by (auto simp: registration_def probe_def split: option.splits)

lemma addEvent_fresh:
  assumes "heap s this = Live c" "name \<noteq> []" "storable name" "\<not> inherited ty"
    and "registration s this ty ''indexOf'' = None"
    and "registration s this ty ''hasOwnProperty'' = None"
    and "registration s this ty name = None"
  shows "\<exists>s' c'. addEvent gen this ty (Function f i) (Some name) cap s = (Inr (), s')
           \<and> heap s' this = Live c'
           \<and> (\<forall>ty' n'. registration s' this ty' n' =
                  (if ty' = ty \<and> n' = name then Some \<lparr>wrapped = i, stamp = closures s\<rparr>
                   else registration s this ty' n'))
           \<and> closures s' = Suc (closures s)
           \<and> attached s' this = insert (ty, \<lparr>wrapped = i, stamp = closures s\<rparr>, cap) (attached s this)
           \<and> (no_duplicates s this \<longrightarrow> no_duplicates s' this)"
proof -
  note st = storable_names [OF assms(3)]
  have ty: "ty \<noteq> ''__proto__''" using assms(4) by (auto simp: inherited_def)
  let ?m = "case own ty (eventMap c) of None \<Rightarrow> [] | Some m \<Rightarrow> m"
  let ?em = "case own ty (eventMap c) of
               None \<Rightarrow> AList.update ty [] (eventMap c) | Some m \<Rightarrow> eventMap c"
  let ?cb = "\<lparr>wrapped = i, stamp = closures s\<rparr>"
  let ?s3 = "upd this (\<lambda>c. c\<lparr>eventMap := AList.update ty (AList.update name ?cb ?m) ?em\<rparr>)
               ((upd this (\<lambda>c. c\<lparr>eventMap := ?em\<rparr>) s)\<lparr>closures := Suc (closures s)\<rparr>)"
  have pr: "probe ?m = None" by (rule table_plain [OF assms(1,5,6)])
  have m': "(case own ty ?em of None \<Rightarrow> [] | Some m \<Rightarrow> m) = ?m"
    using ty by (simp add: update_conv' split: option.splits)
  have free: "own name ?m = None"
    using assms(1,7) by (auto simp: registration_def own_def split: option.splits)
  have e: "addEvent gen this ty (Function f i) (Some name) cap s
             = (Inr (), addEventListener this ty ?cb cap ?s3)"
    using assms(1,2,4) pr free m'
    by (simp add: addEvent_def Let_def has_def del: own_plain_name)
  have h: "heap (addEventListener this ty ?cb cap ?s3) this
             = Live (c\<lparr>eventMap := AList.update ty (AList.update name ?cb ?m) ?em\<rparr>)"
    using assms(1) by (simp add: addEventListener_def upd_def)
  have reg: "registration (addEventListener this ty ?cb cap ?s3) this ty' n' =
                  (if ty' = ty \<and> n' = name then Some ?cb else registration s this ty' n')"
    for ty' n'
    unfolding registration_own [OF h] registration_own [OF assms(1)]
    using st(1) ty
    by (auto simp: own_def update_conv' split: option.splits)
  have at: "attached (addEventListener this ty ?cb cap ?s3) this
              = insert (ty, ?cb, cap) (attached s this)"
    by (auto simp: addEventListener_def attached_def upd_def)
  have nd: "no_duplicates s this \<longrightarrow> no_duplicates (addEventListener this ty ?cb cap ?s3) this"
    by (auto simp: addEventListener_def no_duplicates_def upd_def)
  have cl: "closures (addEventListener this ty ?cb cap ?s3) = Suc (closures s)"
    by (simp add: addEventListener_def upd_def)
  show ?thesis
    using e h reg at nd cl
    by (intro exI [of _ "addEventListener this ty ?cb cap ?s3"]
              exI [of _ "c\<lparr>eventMap := AList.update ty (AList.update name ?cb ?m) ?em\<rparr>"])
       simp
qed

lemma addEvent_taken:
  assumes "heap s this = Live c" "name \<noteq> []"
    and "registration s this ty ''indexOf'' = None"
    and "registration s this ty ''hasOwnProperty'' = None"
    and "registration s this ty name = Some w"
  shows "addEvent gen this ty (Function f i) (Some name) cap s = (Inl UniqueType, s)"
proof -
  from assms(1,5) obtain m where m: "own ty (eventMap c) = Some m" "own name m = Some w"
    by (auto simp: registration_def split: option.splits)
  have pr: "probe m = None" using table_plain [OF assms(1,3,4)] m(1) by simp
  have id: "upd this (\<lambda>c. c\<lparr>eventMap := eventMap c\<rparr>) s = s"
    using assms(1) by (simp add: upd_def fun_upd_idem)
  have "upd this (\<lambda>x. x\<lparr>eventMap := eventMap c\<rparr>) s = s"
    using assms(1) by (cases s) (simp add: upd_def fun_upd_idem)
  then show ?thesis
    using assms(1,2) m pr
    by (simp add: addEvent_def Let_def has_def del: own_plain_name)
qed

lemma removeEvent_present:
  assumes "heap s this = Live c" "name \<noteq> []" "ty \<noteq> []"
    and "registration s this ty name = Some w"
  shows "\<exists>s' c'. removeEvent this ty name cap s = (Inr (), s')
           \<and> heap s' this = Live c'
           \<and> (\<forall>ty' n'. registration s' this ty' n' =
                  (if ty' = ty \<and> n' = name then None else registration s this ty' n'))
           \<and> (no_duplicates s this \<longrightarrow> attached s' this = attached s this - {(ty, w, cap)})"
proof -
  from assms(1,4) obtain m where m: "own ty (eventMap c) = Some m" "own name m = Some w"
    by (auto simp: registration_def split: option.splits)
  have ty: "ty \<noteq> ''__proto__''" "name \<noteq> ''__proto__''"
    using m by (auto simp: own_def split: if_splits)
  let ?s' = "upd this (\<lambda>c. c\<lparr>eventMap :=
                AList.update ty (AList.delete name m) (eventMap c)\<rparr>)
               (removeEventListener this ty w cap s)"
  have e: "removeEvent this ty name cap s = (Inr (), ?s')"
    using assms(1-3) m by (simp add: removeEvent_def del: own_plain_name)
  have h: "heap ?s' this
             = Live (c\<lparr>eventMap := AList.update ty (AList.delete name m) (eventMap c)\<rparr>)"
    using assms(1) by (simp add: removeEventListener_def upd_def)
  have reg: "registration ?s' this ty' n' =
                  (if ty' = ty \<and> n' = name then None else registration s this ty' n')"
    for ty' n'
    using m ty
    by (auto simp: registration_own [OF h] registration_own [OF assms(1)] own_def update_conv'
                   delete_conv' split: option.splits)
  have at: "no_duplicates s this \<longrightarrow> attached ?s' this = attached s this - {(ty, w, cap)}"
    by (auto simp: removeEventListener_def attached_def no_duplicates_def upd_def)
  show ?thesis
    using e h reg at
    by (intro exI [of _ ?s']
              exI [of _ "c\<lparr>eventMap := AList.update ty (AList.delete name m) (eventMap c)\<rparr>"])
       simp
qed

text \<open>
  Unique names, for names that an assignment stores as own properties without
  disturbing \<^verbatim>\<open>has\<close>. On a live component with no registration under the names \<open>a\<close>
  and \<open>b\<close> (distinct, non-empty, none of \<^verbatim>\<open>__proto__\<close>, \<^verbatim>\<open>indexOf\<close>,
  \<^verbatim>\<open>hasOwnProperty\<close>) nor under \<^verbatim>\<open>indexOf\<close> or \<^verbatim>\<open>hasOwnProperty\<close>, for a non-empty
  event type \<open>ty\<close> that is not an inherited name: \<^verbatim>\<open>addEvent(ty, f1, a)\<close> succeeds and
  records a closure around \<open>f1\<close>; a second \<^verbatim>\<open>addEvent(ty, f2, a)\<close> throws \<^verbatim>\<open>UniqueType\<close>
  and leaves the whole state, the first registration included, as it was;
  \<^verbatim>\<open>addEvent(ty, f3, b)\<close> succeeds, after which both closures are recorded and attached
  to the element; and \<^verbatim>\<open>removeEvent(ty, a)\<close> removes and detaches the one without
  touching the other, as does \<^verbatim>\<open>removeEvent(ty, b)\<close>.
\<close>

lemma addEvent_unique_storable_name:
  assumes live: "heap s this = Live c" and nd: "no_duplicates s this"
    and names: "a \<noteq> []" "b \<noteq> []" "a \<noteq> b" "ty \<noteq> []"
    and ord: "storable a" "storable b" "\<not> inherited ty"
    and pl: "registration s this ty ''indexOf'' = None"
      "registration s this ty ''hasOwnProperty'' = None"
    and free: "registration s this ty a = None" "registration s this ty b = None"
  shows "\<exists>s1 s2 wa wb.
           addEvent g1 this ty (Function f1 i1) (Some a) cap s = (Inr (), s1)
         \<and> registration s1 this ty a = Some wa \<and> wrapped wa = i1
         \<and> addEvent g2 this ty (Function f2 i2) (Some a) cap2 s1 = (Inl UniqueType, s1)
         \<and> addEvent g3 this ty (Function f3 i3) (Some b) cap s1 = (Inr (), s2)
         \<and> registration s2 this ty a = Some wa
         \<and> registration s2 this ty b = Some wb \<and> wrapped wb = i3
         \<and> (ty, wa, cap) \<in> attached s2 this \<and> (ty, wb, cap) \<in> attached s2 this
         \<and> (\<exists>s3. removeEvent this ty a cap s2 = (Inr (), s3)
                \<and> registration s3 this ty a = None
                \<and> registration s3 this ty b = Some wb
                \<and> (ty, wa, cap) \<notin> attached s3 this \<and> (ty, wb, cap) \<in> attached s3 this)
         \<and> (\<exists>s4. removeEvent this ty b cap s2 = (Inr (), s4)
                \<and> registration s4 this ty b = None
                \<and> registration s4 this ty a = Some wa
                \<and> (ty, wb, cap) \<notin> attached s4 this \<and> (ty, wa, cap) \<in> attached s4 this)"
proof -
  let ?wa = "\<lparr>wrapped = i1, stamp = closures s\<rparr>"
  let ?wb = "\<lparr>wrapped = i3, stamp = Suc (closures s)\<rparr>"
  note sa = storable_names [OF ord(1)] and sb = storable_names [OF ord(2)]
  obtain s1 c1 where s1: "addEvent g1 this ty (Function f1 i1) (Some a) cap s = (Inr (), s1)"
      "heap s1 this = Live c1"
      "\<And>ty' n'. registration s1 this ty' n' =
          (if ty' = ty \<and> n' = a then Some ?wa else registration s this ty' n')"
      "closures s1 = Suc (closures s)"
      "attached s1 this = insert (ty, ?wa, cap) (attached s this)"
      "no_duplicates s1 this"
    using addEvent_fresh [OF live names(1) ord(1,3) pl free(1), of g1 f1 i1 cap] nd by blast
  have ra1: "registration s1 this ty a = Some ?wa" by (simp add: s1(3))
  have rb1: "registration s1 this ty b = None" using names(3) free(2) by (simp add: s1(3))
  have pl1: "registration s1 this ty ''indexOf'' = None"
      "registration s1 this ty ''hasOwnProperty'' = None"
    using pl sa by (simp_all add: s1(3))
  have e2: "addEvent g2 this ty (Function f2 i2) (Some a) cap2 s1 = (Inl UniqueType, s1)"
    by (rule addEvent_taken [OF s1(2) names(1) pl1 ra1])
  obtain s2 c2 where s2: "addEvent g3 this ty (Function f3 i3) (Some b) cap s1 = (Inr (), s2)"
      "heap s2 this = Live c2"
      "\<And>ty' n'. registration s2 this ty' n' =
          (if ty' = ty \<and> n' = b then Some ?wb else registration s1 this ty' n')"
      "attached s2 this = insert (ty, ?wb, cap) (attached s1 this)"
      "no_duplicates s2 this"
    using addEvent_fresh [OF s1(2) names(2) ord(2,3) pl1 rb1, of g3 f3 i3 cap] s1(4,6) by auto
  have ra2: "registration s2 this ty a = Some ?wa" using names(3) by (simp add: s2(3) s1(3))
  have rb2: "registration s2 this ty b = Some ?wb" by (simp add: s2(3))
  have at2: "(ty, ?wa, cap) \<in> attached s2 this" "(ty, ?wb, cap) \<in> attached s2 this"
    by (simp_all add: s2(4) s1(5))
  obtain s3 where s3: "removeEvent this ty a cap s2 = (Inr (), s3)"
      "\<And>ty' n'. registration s3 this ty' n' =
          (if ty' = ty \<and> n' = a then None else registration s2 this ty' n')"
      "attached s3 this = attached s2 this - {(ty, ?wa, cap)}"
    using removeEvent_present [OF s2(2) names(1,4) ra2, of cap] s2(5) by blast
  have r3: "registration s3 this ty a = None" "registration s3 this ty b = Some ?wb"
    using names(3) rb2 by (simp_all add: s3(2))
  have a3: "(ty, ?wa, cap) \<notin> attached s3 this" "(ty, ?wb, cap) \<in> attached s3 this"
    using at2 by (simp_all add: s3(3))
  obtain s4 where s4: "removeEvent this ty b cap s2 = (Inr (), s4)"
      "\<And>ty' n'. registration s4 this ty' n' =
          (if ty' = ty \<and> n' = b then None else registration s2 this ty' n')"
      "attached s4 this = attached s2 this - {(ty, ?wb, cap)}"
    using removeEvent_present [OF s2(2) names(2,4) rb2, of cap] s2(5) by blast
  have r4: "registration s4 this ty b = None" "registration s4 this ty a = Some ?wa"
    using names(3) ra2 by (simp_all add: s4(2))
  have a4: "(ty, ?wb, cap) \<notin> attached s4 this" "(ty, ?wa, cap) \<in> attached s4 this"
    using at2 by (simp_all add: s4(3))
  show ?thesis
    using s1(1) ra1 e2 s2(1) ra2 rb2 at2 s3(1) r3 a3 s4(1) r4 a4
    by (intro exI [of _ s1] exI [of _ s2] exI [of _ ?wa] exI [of _ ?wb]) auto
qed

lemma first_element:
  "heap (snd (new_BaseElement ''k0'' world0)) 0 = Live (initial_fields ''k0'')"
  "domListeners (nodes (snd (new_BaseElement ''k0'' world0)) 0) = []"
  by (simp_all add: new_BaseElement_def world0_def Let_def initial_node_def)

lemma first_element_eq:
  "snd (new_BaseElement ''k0'' world0)
     = world0\<lparr>heap := (heap world0)(0 := Live (initial_fields ''k0'')),
              nodes := (nodes world0)(0 := initial_node), nextRef := Suc 0\<rparr>"
  by (simp add: new_BaseElement_plain)

text \<open>
  Claim C9 at the name \<^verbatim>\<open>indexOf\<close>, on the first component of a fresh page.
  \<^verbatim>\<open>addEvent("click", fn, "indexOf")\<close> registers a closure under the own property
  \<^verbatim>\<open>indexOf\<close> of the table of \<^verbatim>\<open>click\<close>. In the second call,
  \<^verbatim>\<open>addEvent("click", fn2, "indexOf")\<close>, the uniqueness test \<^verbatim>\<open>has\<close> calls that closure
  (and through it \<open>fn\<close>) instead of looking the name up, gets \<^verbatim>\<open>undefined\<close>, and the
  call returns without \<^verbatim>\<open>UniqueType\<close>: the registration is replaced by the closure
  around \<open>fn2\<close>, and both closures are attached to the element, the first of them no
  longer reachable by its name.
\<close>

theorem addEvent_indexOf_replaced:
  "fst (addEvent ''g1'' 0 ''click'' (Function ''fn'' 1) (Some ''indexOf'') False
          (snd (new_BaseElement ''k0'' world0))) = Inr ()
   \<and> registration
        (snd (addEvent ''g1'' 0 ''click'' (Function ''fn'' 1) (Some ''indexOf'') False
                (snd (new_BaseElement ''k0'' world0)))) 0 ''click'' ''indexOf''
       = Some \<lparr>wrapped = 1, stamp = 0\<rparr>
   \<and> fst (addEvent ''g2'' 0 ''click'' (Function ''fn2'' 2) (Some ''indexOf'') False
            (snd (addEvent ''g1'' 0 ''click'' (Function ''fn'' 1) (Some ''indexOf'') False
                    (snd (new_BaseElement ''k0'' world0))))) = Inr ()
   \<and> registration
        (snd (addEvent ''g2'' 0 ''click'' (Function ''fn2'' 2) (Some ''indexOf'') False
           (snd (addEvent ''g1'' 0 ''click'' (Function ''fn'' 1) (Some ''indexOf'') False
                   (snd (new_BaseElement ''k0'' world0)))))) 0 ''click'' ''indexOf''
       = Some \<lparr>wrapped = 2, stamp = 1\<rparr>
   \<and> attached
        (snd (addEvent ''g2'' 0 ''click'' (Function ''fn2'' 2) (Some ''indexOf'') False
           (snd (addEvent ''g1'' 0 ''click'' (Function ''fn'' 1) (Some ''indexOf'') False
                   (snd (new_BaseElement ''k0'' world0)))))) 0
       = {(''click'', \<lparr>wrapped = 1, stamp = 0\<rparr>, False),
          (''click'', \<lparr>wrapped = 2, stamp = 1\<rparr>, False)}
   \<and> trail
        (snd (addEvent ''g2'' 0 ''click'' (Function ''fn2'' 2) (Some ''indexOf'') False
           (snd (addEvent ''g1'' 0 ''click'' (Function ''fn'' 1) (Some ''indexOf'') False
                   (snd (new_BaseElement ''k0'' world0))))))
       = [HandlerCalled 1 0 ''indexOf'']"
proof -
  let ?s0 = "world0\<lparr>heap := (heap world0)(0 := Live (initial_fields ''k0'')),
              nodes := (nodes world0)(0 := initial_node), nextRef := Suc 0\<rparr>"
  let ?w1 = "\<lparr>wrapped = 1, stamp = 0\<rparr>"
  let ?w2 = "\<lparr>wrapped = 2, stamp = 1\<rparr>"
  let ?s1 = "?s0\<lparr>heap := (heap ?s0)(0 := Live ((initial_fields ''k0'')
                     \<lparr>eventMap := [(''click'', [(''indexOf'', ?w1)])]\<rparr>)),
                 nodes := (nodes ?s0)(0 := initial_node
                     \<lparr>domListeners := [(''click'', ?w1, False)]\<rparr>),
                 closures := 1\<rparr>"
  let ?s2 = "?s1\<lparr>heap := (heap ?s1)(0 := Live ((initial_fields ''k0'')
                     \<lparr>eventMap := [(''click'', [(''indexOf'', ?w2)])]\<rparr>)),
                 nodes := (nodes ?s1)(0 := initial_node
                     \<lparr>domListeners := [(''click'', ?w1, False), (''click'', ?w2, False)]\<rparr>),
                 closures := 2,
                 trail := [HandlerCalled 1 0 ''indexOf'']\<rparr>"
  have e1: "addEvent ''g1'' 0 ''click'' (Function ''fn'' 1) (Some ''indexOf'') False ?s0
              = (Inr (), ?s1)"
    by (simp add: addEvent_def Let_def has_def probe_def inherited_def upd_def
          addEventListener_def initial_fields_def initial_node_def is_function_def)
  have e2: "addEvent ''g2'' 0 ''click'' (Function ''fn2'' 2) (Some ''indexOf'') False ?s1
              = (Inr (), ?s2)"
    by (simp add: addEvent_def Let_def has_def probe_def inherited_def upd_def
          addEventListener_def initial_fields_def initial_node_def is_function_def)
  show ?thesis
    unfolding first_element_eq
    by (simp only: e1 e2 fst_conv snd_conv)
       (simp add: registration_def attached_def initial_node_def insert_commute)
qed

subsection \<open>Two components, one index name\<close>

lemma second_assignment_rejected:
  assumes "heap s a = Live ca" "heap s b = Live cb"
    and "active (indexedElementEvent s)" "validateChannelName x = Inr ()" "storable x"
    and "plain (channels (indexedElementEvent s))"
    and "map_of (channels (indexedElementEvent s)) x = None"
    and "plain (inWaitChannel (indexedElementEvent s))"
  shows "\<exists>s1. set_id a x s = (Inr (), s1)
           \<and> set_id b x s1 = (Inr (), s1\<lparr>uncaught := uncaught s @ [NON_WRITABLE_CHANNEL]\<rparr>)
           \<and> heap s1 = heap s \<and> uncaught s1 = uncaught s
           \<and> microtasks s1 = microtasks s @ [(a, x)]
           \<and> resolves s1 x = Some a"
proof -
  let ?reg = "(indexedElementEvent s)
                 \<lparr>inWaitChannel := AList.delete x (inWaitChannel (indexedElementEvent s)),
                  channels := AList.update x
                     \<lparr>listener = SendElement a, removable = True, writable = False\<rparr>
                     (channels (indexedElementEvent s))\<rparr>"
  let ?s1 = "s\<lparr>indexedElementEvent := ?reg,
              tasks := after_all
                 (map Exe (case map_of (inWaitChannel (indexedElementEvent s)) x of
                             None \<Rightarrow> [] | Some q \<Rightarrow> q)) (tasks s),
              microtasks := microtasks s @ [(a, x)]\<rparr>"
  note st = storable_names [OF assms(5)]
  have e1: "set_id a x s = (Inr (), ?s1)"
    by (rule set_id_fresh [OF assms(1,3,4) st(1) assms(6,7,8)])
  have act: "active (indexedElementEvent ?s1)" using assms(3) by (simp add: active_def)
  have ch: "map_of (channels (indexedElementEvent ?s1)) x
              = Some \<lparr>listener = SendElement a, removable = True, writable = False\<rparr>"
    by (simp add: update_conv')
  have pl: "plain (channels (indexedElementEvent ?s1))"
    using plain_update [OF assms(6) st(2,3)] by simp
  have e2: "set_id b x ?s1 = (Inr (), ?s1\<lparr>uncaught := uncaught ?s1 @ [NON_WRITABLE_CHANNEL]\<rparr>)"
    by (rule set_id_taken [OF _ act assms(4) st(1) pl ch]) (simp_all add: assms(2))
  show ?thesis
    using e1 e2 ch st(1) by (intro exI [of _ ?s1]) (simp add: resolves_def)
qed

text \<open>
  Claim C6, amended: when two distinct live components are assigned the same index name
  \<open>x\<close> (a name \<^verbatim>\<open>validateChannelName\<close> accepts, free before, and that an assignment
  stores as an own property without disturbing \<^verbatim>\<open>has\<close>: any name but \<^verbatim>\<open>__proto__\<close>,
  \<^verbatim>\<open>indexOf\<close> and \<^verbatim>\<open>hasOwnProperty\<close>), on a registry whose tables are plain, the
  earlier assignment wins. Both assignments return; the second one's \<^verbatim>\<open>handle\<close> is rejected with
  \<^verbatim>\<open>NON_WRITABLE_CHANNEL\<close> (an unhandled rejection); once the microtasks have run, \<open>x\<close>
  resolves to the first component, whose \<^verbatim>\<open>indexName\<close> is \<open>x\<close>, and the second
  component is unchanged.
\<close>

theorem index_name_first_writer_wins:
  assumes "heap s a = Live ca" "heap s b = Live cb" "a \<noteq> b"
    and "active (indexedElementEvent s)" "validateChannelName x = Inr ()" "storable x"
    and "plain (channels (indexedElementEvent s))"
    and "map_of (channels (indexedElementEvent s)) x = None"
    and "plain (inWaitChannel (indexedElementEvent s))" "microtasks s = []"
  shows "\<exists>s1 s2. set_id a x s = (Inr (), s1) \<and> set_id b x s1 = (Inr (), s2)
           \<and> resolves (run_microtasks s2) x = Some a
           \<and> uncaught (run_microtasks s2) = uncaught s @ [NON_WRITABLE_CHANNEL]
           \<and> heap (run_microtasks s2) a = Live (ca\<lparr>indexName := Some x\<rparr>)
           \<and> heap (run_microtasks s2) b = Live cb"
proof -
  obtain s1 where s1: "set_id a x s = (Inr (), s1)"
      "set_id b x s1 = (Inr (), s1\<lparr>uncaught := uncaught s @ [NON_WRITABLE_CHANNEL]\<rparr>)"
      "heap s1 = heap s" "microtasks s1 = microtasks s @ [(a, x)]" "resolves s1 x = Some a"
    using second_assignment_rejected [OF assms(1,2,4,5,6,7,8,9)] by blast
  let ?s2 = "s1\<lparr>uncaught := uncaught s @ [NON_WRITABLE_CHANNEL]\<rparr>"
  have m: "microtasks ?s2 = [(a, x)]" using s1(4) assms(10) by simp
  have h: "heap (run_microtasks ?s2) = (heap s)(a := Live (ca\<lparr>indexName := Some x\<rparr>))"
    using run_microtasks_one [OF m] s1(3) assms(1) by simp
  have r: "resolves (run_microtasks ?s2) x = Some a"
    using s1(5) by (simp add: resolves_def)
  show ?thesis
    using s1(1,2) r h assms(2,3) by (intro exI [of _ s1] exI [of _ ?s2]) simp
qed

lemma storable_x: "storable ''x''"
  by (simp add: storable_def)

lemma twins_ready:
  "heap twins 3 = Live (initial_fields ''ka'')" "heap twins 4 = Live (initial_fields ''kb'')"
  "active (indexedElementEvent twins)" "plain (channels (indexedElementEvent twins))"
  "map_of (channels (indexedElementEvent twins)) ''x'' = None"
  "plain (inWaitChannel (indexedElementEvent twins))"
  "microtasks twins = []" "uncaught twins = []"
  by (simp_all add: twins_eq active_def main_channel_def newEmitter_def plain_def probe_def)

text \<open>
  Claim C6 as stated fails: the setter registers the channel with \<^verbatim>\<open>writable\<close> false,
  so the second assignment's \<^verbatim>\<open>handle\<close> is rejected and the name keeps resolving to
  the first component. In the session \<open>twins\<close>, after \<^verbatim>\<open>a.data.id = "x"\<close> and then
  \<^verbatim>\<open>b.data.id = "x"\<close> (references 3 and 4), \<^verbatim>\<open>"x"\<close> resolves to \<open>a\<close>.
\<close>

theorem index_name_later_assignment_loses:
  "resolves (run_microtasks (snd (set_id 4 ''x'' (snd (set_id 3 ''x'' twins))))) ''x'' = Some 3"
proof -
  obtain s1 where s1: "set_id 3 ''x'' twins = (Inr (), s1)"
      "set_id 4 ''x'' s1 = (Inr (), s1\<lparr>uncaught := uncaught twins @ [NON_WRITABLE_CHANNEL]\<rparr>)"
      "resolves s1 ''x'' = Some 3"
    using second_assignment_rejected [OF twins_ready(1,2,3) valid_x storable_x twins_ready(4,5,6)]
    by blast
  show ?thesis using s1(3) by (simp add: s1(1,2) resolves_def)
qed

theorem index_name_first_writer_wins_witness:
  "heap twins 3 = Live (initial_fields ''ka'') \<and> heap twins 4 = Live (initial_fields ''kb'')
   \<and> active (indexedElementEvent twins) \<and> validateChannelName ''x'' = Inr ()
   \<and> storable ''x''
   \<and> (\<exists>s1 s2. set_id 3 ''x'' twins = (Inr (), s1) \<and> set_id 4 ''x'' s1 = (Inr (), s2)
          \<and> resolves (run_microtasks s2) ''x'' = Some 3
          \<and> uncaught (run_microtasks s2) = [NON_WRITABLE_CHANNEL])"
proof -
  have ne: "(3::nat) \<noteq> 4" by simp
  show ?thesis
    using index_name_first_writer_wins [OF twins_ready(1,2) ne twins_ready(3) valid_x storable_x
              twins_ready(4,5,6,7)]
      twins_ready(1,2,3,8) valid_x storable_x
    by auto
qed

subsection \<open>Destruction\<close>















section \<open>Rendering\<close>

subsection \<open>What a render leaves alone\<close>















subsection \<open>A render that returns\<close>












subsection \<open>Rendering a well-formed tree returns\<close>






subsection \<open>Three nested components\<close>







subsection \<open>The first render and the later ones\<close>


section \<open>Index names and deferred lookups\<close>

subsection \<open>Trees that stay ranked\<close>









subsection \<open>Adding a component\<close>



subsection \<open>The deferred call\<close>










subsection \<open>The session \<open>family\<close>\<close>






subsection \<open>Resolution in both orders\<close>




end
